theory Spec2Isabelle
  imports Complex_Main
begin

section \<open>Numbers\<close>

text \<open>
  The program computes with JavaScript numbers. Three models of them are used.
  The pricing kernel and the solver are first modelled over the reals: every operation
  is the exact one, so rounding, overflow and NaN are outside that model. Where rounding
  decides a property, the kernel is modelled a second time in double arithmetic. Where
  \<open>NaN\<close>, \<open>Infinity\<close> or \<open>-Infinity\<close> decide a property (the solver on inputs outside the
  kernel's domain, and the strategy analytics, which start from \<open>Math.min()\<close> and
  \<open>Math.max()\<close> of no arguments), the code is modelled over \<open>jsnum\<close>: exact reals extended
  with the two infinities and NaN.
\<close>

section \<open>BlackScholesCalculator\<close>

datatype option_type = Call | Put

definition normalCDF :: "real \<Rightarrow> real" where
  "normalCDF x0 =
     (let a1 = 0.254829592;
          a2 = - 0.284496736;
          a3 = 1.421413741;
          a4 = - 1.453152027;
          a5 = 1.061405429;
          p = 0.3275911;
          sign = (if x0 < 0 then - 1 else 1);
          x = \<bar>x0\<bar> / sqrt 2;
          t = 1 / (1 + p * x);
          y = 1 - (((((a5 * t + a4) * t) + a3) * t + a2) * t + a1) * t * exp (- x * x)
      in 0.5 * (1 + sign * y))"

text \<open>
  The term that \<open>normalCDF\<close> subtracts from 1 to form \<open>y\<close>, as a function of the
  scaled argument \<open>x = |x0| / sqrt 2\<close>; it is used to state facts about \<open>normalCDF\<close>.
\<close>

definition normalCDF_tail :: "real \<Rightarrow> real" where
  "normalCDF_tail x =
     (let t = 1 / (1 + 0.3275911 * x)
      in (((((1.061405429 * t + - 1.453152027) * t) + 1.421413741) * t + - 0.284496736) * t
            + 0.254829592) * t * exp (- x * x))"

definition normalPDF :: "real \<Rightarrow> real" where
  "normalPDF x = exp (- 0.5 * x * x) / sqrt (2 * pi)"

definition calculateD1 :: "real \<Rightarrow> real \<Rightarrow> real \<Rightarrow> real \<Rightarrow> real \<Rightarrow> real" where
  "calculateD1 S K T r sigma =
     (ln (S / K) + (r + 0.5 * sigma * sigma) * T) / (sigma * sqrt T)"

definition calculateD2 :: "real \<Rightarrow> real \<Rightarrow> real \<Rightarrow> real" where
  "calculateD2 d1 sigma T = d1 - sigma * sqrt T"

definition callPrice :: "real \<Rightarrow> real \<Rightarrow> real \<Rightarrow> real \<Rightarrow> real \<Rightarrow> real" where
  "callPrice S K T r sigma =
     (if T \<le> 0 then max (S - K) 0
      else let d1 = calculateD1 S K T r sigma;
               d2 = calculateD2 d1 sigma T
           in S * normalCDF d1 - K * exp (- r * T) * normalCDF d2)"

definition putPrice :: "real \<Rightarrow> real \<Rightarrow> real \<Rightarrow> real \<Rightarrow> real \<Rightarrow> real" where
  "putPrice S K T r sigma =
     (if T \<le> 0 then max (K - S) 0
      else let d1 = calculateD1 S K T r sigma;
               d2 = calculateD2 d1 sigma T
           in K * exp (- r * T) * normalCDF (- d2) - S * normalCDF (- d1))"

definition vega :: "real \<Rightarrow> real \<Rightarrow> real \<Rightarrow> real \<Rightarrow> real \<Rightarrow> real" where
  "vega S K T r sigma =
     (if T \<le> 0 then 0
      else let d1 = calculateD1 S K T r sigma
           in S * normalPDF d1 * sqrt T / 100)"

text \<open>
  The polynomial in \<open>t\<close> inside \<open>normalCDF\<close>, its derivative, and its value at the
  \<open>t\<close> computed for an argument \<open>d\<close>; they are used to state facts about
  \<open>normalCDF\<close>.
\<close>

definition tail_poly :: "real \<Rightarrow> real" where
  "tail_poly t =
     (((((1.061405429 * t + - 1.453152027) * t) + 1.421413741) * t + - 0.284496736) * t
        + 0.254829592) * t"

definition tail_poly_deriv :: "real \<Rightarrow> real" where
  "tail_poly_deriv t = 5 * 1.061405429 * t ^ 4 + 4 * (- 1.453152027) * t ^ 3
     + 3 * 1.421413741 * t ^ 2 + 2 * (- 0.284496736) * t + 0.254829592"

definition tail_coeff :: "real \<Rightarrow> real" where
  "tail_coeff d = tail_poly (1 / (1 + 0.3275911 * (\<bar>d\<bar> / sqrt 2)))"

text \<open>
  \<open>impliedVolatility\<close> returns a bare number from three places: the tolerance test inside
  the loop, the \<open>break\<close> on a zero vega, and the end of the loop when the iteration budget
  is used up. The model records which of the three was taken next to the number; the
  program itself returns the number only.
\<close>

datatype iv_exit = Converged | VegaZero | Exhausted

text \<open>
  The price the solver compares with the market price:
  \<open>optionType === 'call' ? callPrice(...) : putPrice(...)\<close>.
\<close>

definition model_price :: "option_type \<Rightarrow> real \<Rightarrow> real \<Rightarrow> real \<Rightarrow> real \<Rightarrow> real \<Rightarrow> real" where
  "model_price optionType S K T r sigma =
     (if optionType = Call then callPrice S K T r sigma else putPrice S K T r sigma)"

text \<open>
  One clamped Newton update: \<open>sigma = sigma - diff / vega\<close> followed by
  \<open>sigma = Math.max(0.01, Math.min(5.0, sigma))\<close>.
\<close>

definition newton_update ::
  "real \<Rightarrow> real \<Rightarrow> real \<Rightarrow> real \<Rightarrow> real \<Rightarrow> option_type \<Rightarrow> real \<Rightarrow> real" where
  "newton_update marketPrice S K T r optionType sigma =
     (let price = model_price optionType S K T r sigma;
          diff = price - marketPrice;
          vega = vega S K T r sigma * 100
      in max 0.01 (min 5.0 (sigma - diff / vega)))"

text \<open>
  The loop \<open>for (let i = 0; i < maxIterations; i++)\<close>, by recursion on the number of
  iterations that remain.
\<close>

fun iv_loop ::
  "nat \<Rightarrow> real \<Rightarrow> real \<Rightarrow> real \<Rightarrow> real \<Rightarrow> real \<Rightarrow> option_type \<Rightarrow> real \<Rightarrow> real \<Rightarrow> iv_exit \<times> real" where
  "iv_loop 0 marketPrice S K T r optionType tolerance sigma = (Exhausted, sigma)"
| "iv_loop (Suc n) marketPrice S K T r optionType tolerance sigma =
     (let price = model_price optionType S K T r sigma;
          diff = price - marketPrice
      in if \<bar>diff\<bar> < tolerance then (Converged, sigma)
         else let vega = vega S K T r sigma * 100
              in if vega = 0 then (VegaZero, sigma)
                 else iv_loop n marketPrice S K T r optionType tolerance
                        (max 0.01 (min 5.0 (sigma - diff / vega))))"

definition impliedVolatility_run ::
  "real \<Rightarrow> real \<Rightarrow> real \<Rightarrow> real \<Rightarrow> real \<Rightarrow> option_type \<Rightarrow> real \<Rightarrow> nat \<Rightarrow> iv_exit \<times> real" where
  "impliedVolatility_run marketPrice S K T r optionType tolerance maxIterations =
     iv_loop maxIterations marketPrice S K T r optionType tolerance 0.3"

definition impliedVolatility ::
  "real \<Rightarrow> real \<Rightarrow> real \<Rightarrow> real \<Rightarrow> real \<Rightarrow> option_type \<Rightarrow> real \<Rightarrow> nat \<Rightarrow> real" where
  "impliedVolatility marketPrice S K T r optionType tolerance maxIterations =
     snd (impliedVolatility_run marketPrice S K T r optionType tolerance maxIterations)"

text \<open>
  \<open>timeToExpiration\<close> reads the clock (\<open>new Date()\<close>); the model takes the instant
  \<open>now\<close> as an argument, in milliseconds like the expiration date.
\<close>

definition timeToExpiration :: "real \<Rightarrow> real \<Rightarrow> real" where
  "timeToExpiration now expirationDate =
     (let diffTime = expirationDate - now;
          diffDays = diffTime / (1000 * 60 * 60 * 24)
      in max 0 (diffDays / 365))"

section \<open>The pricing kernel in double arithmetic\<close>

text \<open>
  Where rounding decides a property, the kernel is also modelled as the program runs it,
  in IEEE 754 binary64: \<open>fl\<close> rounds a real to the nearest number with a 53-bit
  significand, ties to even (the exponent range is not bounded, so overflow and
  underflow are outside the model), and every arithmetic operation of the source is the
  exact operation followed by \<open>fl\<close>. Decimal literals are rounded likewise.
\<close>

definition round_half_even :: "real \<Rightarrow> int" where
  "round_half_even x =
     (let f = \<lfloor>x\<rfloor>; r = x - of_int f
      in if r < 1 / 2 then f else if 1 / 2 < r then f + 1 else if even f then f else f + 1)"

definition fl :: "real \<Rightarrow> real" where
  "fl x =
     (if x = 0 then 0
      else let e = \<lfloor>log 2 \<bar>x\<bar>\<rfloor>
           in of_int (round_half_even (x * 2 powr (52 - of_int e))) * 2 powr (of_int e - 52))"

text \<open>
  \<open>Math.sqrt\<close>, \<open>Math.exp\<close> and \<open>Math.log\<close> belong to the host, not to the program; they
  are taken as correctly rounded.
\<close>

definition Math_sqrt :: "real \<Rightarrow> real" where
  "Math_sqrt x = fl (sqrt x)"

definition Math_exp :: "real \<Rightarrow> real" where
  "Math_exp x = fl (exp x)"

definition Math_log :: "real \<Rightarrow> real" where
  "Math_log x = fl (ln x)"

definition normalCDF_double :: "real \<Rightarrow> real" where
  "normalCDF_double x0 =
     (let a1 = fl 0.254829592;
          a2 = fl (- 0.284496736);
          a3 = fl 1.421413741;
          a4 = fl (- 1.453152027);
          a5 = fl 1.061405429;
          p = fl 0.3275911;
          sign = (if x0 < 0 then - 1 else 1);
          x = fl (\<bar>x0\<bar> / Math_sqrt 2);
          t = fl (1 / fl (1 + fl (p * x)));
          y = fl (1 - fl (fl (fl (fl (fl (fl (fl (fl (fl (fl (a5 * t) + a4) * t) + a3) * t) + a2) * t)
                               + a1) * t)
                          * Math_exp (fl (- x * x))))
      in fl (0.5 * fl (1 + fl (sign * y))))"

definition calculateD1_double :: "real \<Rightarrow> real \<Rightarrow> real \<Rightarrow> real \<Rightarrow> real \<Rightarrow> real" where
  "calculateD1_double S K T r sigma =
     fl (fl (Math_log (fl (S / K)) + fl (fl (r + fl (fl (0.5 * sigma) * sigma)) * T))
         / fl (sigma * Math_sqrt T))"

definition calculateD2_double :: "real \<Rightarrow> real \<Rightarrow> real \<Rightarrow> real" where
  "calculateD2_double d1 sigma T = fl (d1 - fl (sigma * Math_sqrt T))"

definition callPrice_double :: "real \<Rightarrow> real \<Rightarrow> real \<Rightarrow> real \<Rightarrow> real \<Rightarrow> real" where
  "callPrice_double S K T r sigma =
     (if T \<le> 0 then max (fl (S - K)) 0
      else let d1 = calculateD1_double S K T r sigma;
               d2 = calculateD2_double d1 sigma T
           in fl (fl (S * normalCDF_double d1)
                  - fl (fl (K * Math_exp (fl (- r * T))) * normalCDF_double d2)))"

definition putPrice_double :: "real \<Rightarrow> real \<Rightarrow> real \<Rightarrow> real \<Rightarrow> real \<Rightarrow> real" where
  "putPrice_double S K T r sigma =
     (if T \<le> 0 then max (fl (K - S)) 0
      else let d1 = calculateD1_double S K T r sigma;
               d2 = calculateD2_double d1 sigma T
           in fl (fl (fl (K * Math_exp (fl (- r * T))) * normalCDF_double (- d2))
                  - fl (S * normalCDF_double (- d1))))"

text \<open>
  The second implementation of the put price in the repository, \<open>blackScholesPut\<close> of
  \<open>pages/api/market-data/index.js\<close>: the same expressions (its \<open>normalCDF\<close> has the same
  body as the one above), followed by \<open>Math.max(putPrice, 0)\<close>.
\<close>

definition blackScholesPut_double :: "real \<Rightarrow> real \<Rightarrow> real \<Rightarrow> real \<Rightarrow> real \<Rightarrow> real" where
  "blackScholesPut_double S K T r sigma =
     (if T \<le> 0 then max (fl (K - S)) 0
      else let d1 = fl (fl (Math_log (fl (S / K)) + fl (fl (r + fl (fl (0.5 * sigma) * sigma)) * T))
                        / fl (sigma * Math_sqrt T));
               d2 = fl (d1 - fl (sigma * Math_sqrt T));
               price = fl (fl (fl (K * Math_exp (fl (- r * T))) * normalCDF_double (- d2))
                           - fl (S * normalCDF_double (- d1)))
           in max price 0)"

section \<open>JavaScript numbers with infinities\<close>

text \<open>
  A JavaScript number as the strategy code uses it: a finite value (an exact real here),
  \<open>Infinity\<close>, \<open>-Infinity\<close> or \<open>NaN\<close>. The operations follow IEEE 754 on these four
  kinds; signed zeros are not distinguished.
\<close>

datatype jsnum = Fin real | PInf | NInf | NaN

fun js_neg :: "jsnum \<Rightarrow> jsnum" where
  "js_neg (Fin a) = Fin (- a)"
| "js_neg PInf = NInf"
| "js_neg NInf = PInf"
| "js_neg NaN = NaN"

fun js_add :: "jsnum \<Rightarrow> jsnum \<Rightarrow> jsnum" where
  "js_add NaN y = NaN"
| "js_add x NaN = NaN"
| "js_add (Fin a) (Fin b) = Fin (a + b)"
| "js_add PInf NInf = NaN"
| "js_add NInf PInf = NaN"
| "js_add PInf y = PInf"
| "js_add x PInf = PInf"
| "js_add NInf y = NInf"
| "js_add x NInf = NInf"

definition js_sub :: "jsnum \<Rightarrow> jsnum \<Rightarrow> jsnum" where
  "js_sub x y = js_add x (js_neg y)"

text \<open>The sign of a number that is not NaN: \<open>-1\<close>, \<open>0\<close> or \<open>1\<close>.\<close>

fun js_sgn :: "jsnum \<Rightarrow> real" where
  "js_sgn (Fin a) = sgn a"
| "js_sgn PInf = 1"
| "js_sgn NInf = - 1"
| "js_sgn NaN = 0"

definition js_signed_inf :: "real \<Rightarrow> jsnum" where
  "js_signed_inf s = (if s = 0 then NaN else if 0 < s then PInf else NInf)"

fun js_mul :: "jsnum \<Rightarrow> jsnum \<Rightarrow> jsnum" where
  "js_mul NaN y = NaN"
| "js_mul x NaN = NaN"
| "js_mul (Fin a) (Fin b) = Fin (a * b)"
| "js_mul x y = js_signed_inf (js_sgn x * js_sgn y)"

fun js_div :: "jsnum \<Rightarrow> jsnum \<Rightarrow> jsnum" where
  "js_div NaN y = NaN"
| "js_div x NaN = NaN"
| "js_div (Fin a) (Fin b) = (if b = 0 then js_signed_inf (sgn a) else Fin (a / b))"
| "js_div (Fin a) y = Fin 0"
| "js_div x (Fin b) = (if b < 0 then js_neg x else x)"
| "js_div x y = NaN"

fun js_le :: "jsnum \<Rightarrow> jsnum \<Rightarrow> bool" where
  "js_le NaN y = False"
| "js_le x NaN = False"
| "js_le (Fin a) (Fin b) = (a \<le> b)"
| "js_le NInf y = True"
| "js_le x PInf = True"
| "js_le x y = False"

fun js_lt :: "jsnum \<Rightarrow> jsnum \<Rightarrow> bool" where
  "js_lt NaN y = False"
| "js_lt x NaN = False"
| "js_lt (Fin a) (Fin b) = (a < b)"
| "js_lt PInf y = False"
| "js_lt x NInf = False"
| "js_lt x y = True"

text \<open>\<open>Math.max\<close> and \<open>Math.min\<close> of two numbers, \<open>Math.abs\<close> and \<open>Math.round\<close>.\<close>

fun js_max :: "jsnum \<Rightarrow> jsnum \<Rightarrow> jsnum" where
  "js_max NaN y = NaN"
| "js_max x NaN = NaN"
| "js_max x y = (if js_le x y then y else x)"

fun js_min :: "jsnum \<Rightarrow> jsnum \<Rightarrow> jsnum" where
  "js_min NaN y = NaN"
| "js_min x NaN = NaN"
| "js_min x y = (if js_le x y then x else y)"

fun js_abs :: "jsnum \<Rightarrow> jsnum" where
  "js_abs (Fin a) = Fin \<bar>a\<bar>"
| "js_abs PInf = PInf"
| "js_abs NInf = PInf"
| "js_abs NaN = NaN"

fun js_round :: "jsnum \<Rightarrow> jsnum" where
  "js_round (Fin a) = Fin (of_int \<lfloor>a + 1 / 2\<rfloor>)"
| "js_round x = x"

text \<open>
  \<open>Math.min(...xs)\<close> and \<open>Math.max(...xs)\<close> of a list of arguments: \<open>Infinity\<close> and
  \<open>-Infinity\<close> when the list is empty.
\<close>

definition Math_min :: "jsnum list \<Rightarrow> jsnum" where
  "Math_min xs = foldl js_min PInf xs"

definition Math_max :: "jsnum list \<Rightarrow> jsnum" where
  "Math_max xs = foldl js_max NInf xs"

text \<open>
  \<open>[...new Set(xs)]\<close>: the elements of \<open>xs\<close> in the order of their first occurrence.
\<close>

definition js_set_spread :: "jsnum list \<Rightarrow> jsnum list" where
  "js_set_spread xs = foldl (\<lambda>seen x. if x \<in> set seen then seen else seen @ [x]) [] xs"

section \<open>The solver over JavaScript numbers\<close>

text \<open>
  \<open>impliedVolatility\<close> and the functions it calls once more, over \<open>jsnum\<close>, so that
  what the program does with a NaN or an infinity is part of the model. Finite values
  are exact reals as before: the operations neither round nor overflow.
\<close>

text \<open>\<open>Math.sqrt\<close>, \<open>Math.exp\<close> and \<open>Math.log\<close>.\<close>

fun js_sqrt :: "jsnum \<Rightarrow> jsnum" where
  "js_sqrt (Fin a) = (if a < 0 then NaN else Fin (sqrt a))"
| "js_sqrt PInf = PInf"
| "js_sqrt NInf = NaN"
| "js_sqrt NaN = NaN"

fun js_exp :: "jsnum \<Rightarrow> jsnum" where
  "js_exp (Fin a) = Fin (exp a)"
| "js_exp PInf = PInf"
| "js_exp NInf = Fin 0"
| "js_exp NaN = NaN"

fun js_log :: "jsnum \<Rightarrow> jsnum" where
  "js_log (Fin a) = (if a < 0 then NaN else if a = 0 then NInf else Fin (ln a))"
| "js_log PInf = PInf"
| "js_log NInf = NaN"
| "js_log NaN = NaN"


definition normalCDF_js :: "jsnum \<Rightarrow> jsnum" where
  "normalCDF_js x0 =
     (let a1 = Fin 0.254829592;
          a2 = Fin (- 0.284496736);
          a3 = Fin 1.421413741;
          a4 = Fin (- 1.453152027);
          a5 = Fin 1.061405429;
          p = Fin 0.3275911;
          sign = (if js_lt x0 (Fin 0) then Fin (- 1) else Fin 1);
          x = js_div (js_abs x0) (js_sqrt (Fin 2));
          t = js_div (Fin 1) (js_add (Fin 1) (js_mul p x));
          y = js_sub (Fin 1)
                (js_mul
                   (js_mul
                      (js_add (js_mul (js_add (js_mul (js_add (js_mul
                         (js_add (js_mul a5 t) a4) t) a3) t) a2) t) a1) t)
                   (js_exp (js_mul (js_neg x) x)))
      in js_mul (Fin 0.5) (js_add (Fin 1) (js_mul sign y)))"

definition normalPDF_js :: "jsnum \<Rightarrow> jsnum" where
  "normalPDF_js x =
     js_div (js_exp (js_mul (js_mul (Fin (- 0.5)) x) x)) (js_sqrt (js_mul (Fin 2) (Fin pi)))"

definition calculateD1_js :: "jsnum \<Rightarrow> jsnum \<Rightarrow> jsnum \<Rightarrow> jsnum \<Rightarrow> jsnum \<Rightarrow> jsnum" where
  "calculateD1_js S K T r sigma =
     js_div (js_add (js_log (js_div S K))
                    (js_mul (js_add r (js_mul (js_mul (Fin 0.5) sigma) sigma)) T))
            (js_mul sigma (js_sqrt T))"

definition calculateD2_js :: "jsnum \<Rightarrow> jsnum \<Rightarrow> jsnum \<Rightarrow> jsnum" where
  "calculateD2_js d1 sigma T = js_sub d1 (js_mul sigma (js_sqrt T))"

definition callPrice_js :: "jsnum \<Rightarrow> jsnum \<Rightarrow> jsnum \<Rightarrow> jsnum \<Rightarrow> jsnum \<Rightarrow> jsnum" where
  "callPrice_js S K T r sigma =
     (if js_le T (Fin 0) then js_max (js_sub S K) (Fin 0)
      else let d1 = calculateD1_js S K T r sigma;
               d2 = calculateD2_js d1 sigma T
           in js_sub (js_mul S (normalCDF_js d1))
                     (js_mul (js_mul K (js_exp (js_mul (js_neg r) T))) (normalCDF_js d2)))"

definition putPrice_js :: "jsnum \<Rightarrow> jsnum \<Rightarrow> jsnum \<Rightarrow> jsnum \<Rightarrow> jsnum \<Rightarrow> jsnum" where
  "putPrice_js S K T r sigma =
     (if js_le T (Fin 0) then js_max (js_sub K S) (Fin 0)
      else let d1 = calculateD1_js S K T r sigma;
               d2 = calculateD2_js d1 sigma T
           in js_sub (js_mul (js_mul K (js_exp (js_mul (js_neg r) T))) (normalCDF_js (js_neg d2)))
                     (js_mul S (normalCDF_js (js_neg d1))))"

definition vega_js :: "jsnum \<Rightarrow> jsnum \<Rightarrow> jsnum \<Rightarrow> jsnum \<Rightarrow> jsnum \<Rightarrow> jsnum" where
  "vega_js S K T r sigma =
     (if js_le T (Fin 0) then Fin 0
      else let d1 = calculateD1_js S K T r sigma
           in js_div (js_mul (js_mul S (normalPDF_js d1)) (js_sqrt T)) (Fin 100))"

definition model_price_js ::
  "option_type \<Rightarrow> jsnum \<Rightarrow> jsnum \<Rightarrow> jsnum \<Rightarrow> jsnum \<Rightarrow> jsnum \<Rightarrow> jsnum" where
  "model_price_js optionType S K T r sigma =
     (if optionType = Call then callPrice_js S K T r sigma else putPrice_js S K T r sigma)"

text \<open>
  The loop of \<open>impliedVolatility\<close>. The tests are JavaScript's: \<open>Math.abs(diff) < tolerance\<close>
  and \<open>vega === 0\<close> are both false when their operand is NaN.
\<close>

fun iv_loop_js ::
  "nat \<Rightarrow> jsnum \<Rightarrow> jsnum \<Rightarrow> jsnum \<Rightarrow> jsnum \<Rightarrow> jsnum \<Rightarrow> option_type \<Rightarrow> jsnum \<Rightarrow> jsnum \<Rightarrow> jsnum" where
  "iv_loop_js 0 marketPrice S K T r optionType tolerance sigma = sigma"
| "iv_loop_js (Suc n) marketPrice S K T r optionType tolerance sigma =
     (let price = model_price_js optionType S K T r sigma;
          diff = js_sub price marketPrice
      in if js_lt (js_abs diff) tolerance then sigma
         else let vega = js_mul (vega_js S K T r sigma) (Fin 100)
              in if vega = Fin 0 then sigma
                 else iv_loop_js n marketPrice S K T r optionType tolerance
                        (js_max (Fin 0.01) (js_min (Fin 5.0) (js_sub sigma (js_div diff vega)))))"


section \<open>OptionsStrategy\<close>

datatype position = Long | Short

record leg =
  type :: position
  strike :: real
  premium :: real
  quantity :: int
  optionType :: option_type
  expiration :: real

definition leg_pl_at_expiration :: "leg \<Rightarrow> jsnum \<Rightarrow> jsnum" where
  "leg_pl_at_expiration l stockPrice =
     (let intrinsicValue =
            (if optionType l = Call then js_max (Fin 0) (js_sub stockPrice (Fin (strike l)))
             else js_max (Fin 0) (js_sub (Fin (strike l)) stockPrice))
      in if type l = Long
         then js_mul (js_mul (js_sub intrinsicValue (Fin (premium l)))
                (Fin (of_int (quantity l)))) (Fin 100)
         else js_mul (js_mul (js_sub (Fin (premium l)) intrinsicValue)
                (Fin (of_int (quantity l)))) (Fin 100))"

definition calculatePLAtExpiration :: "leg list \<Rightarrow> jsnum \<Rightarrow> jsnum" where
  "calculatePLAtExpiration legs stockPrice =
     foldl (\<lambda>totalPL l. js_add totalPL (leg_pl_at_expiration l stockPrice)) (Fin 0) legs"

definition leg_current_pl :: "real \<Rightarrow> leg \<Rightarrow> real \<Rightarrow> real \<Rightarrow> real \<Rightarrow> real" where
  "leg_current_pl now l stockPrice riskFreeRate impliedVol =
     (let T = timeToExpiration now (expiration l);
          currentPrice =
            (if optionType l = Call then callPrice stockPrice (strike l) T riskFreeRate impliedVol
             else putPrice stockPrice (strike l) T riskFreeRate impliedVol)
      in if type l = Long then (currentPrice - premium l) * of_int (quantity l) * 100
         else (premium l - currentPrice) * of_int (quantity l) * 100)"

definition calculateCurrentPL :: "real \<Rightarrow> leg list \<Rightarrow> real \<Rightarrow> real \<Rightarrow> real \<Rightarrow> real" where
  "calculateCurrentPL now legs stockPrice riskFreeRate impliedVol =
     foldl (\<lambda>totalPL l. totalPL + leg_current_pl now l stockPrice riskFreeRate impliedVol) 0 legs"

text \<open>
  The zero-crossing test of \<open>calculateBreakevens\<close>:
  \<open>(lastPL <= 0 && currentPL >= 0) || (lastPL >= 0 && currentPL <= 0)\<close>.
\<close>

definition zero_crossing :: "jsnum \<Rightarrow> jsnum \<Rightarrow> bool" where
  "zero_crossing lastPL currentPL \<longleftrightarrow>
     js_le lastPL (Fin 0) \<and> js_le (Fin 0) currentPL
     \<or> js_le (Fin 0) lastPL \<and> js_le currentPL (Fin 0)"

text \<open>
  The inner \<open>while (high - low > 0.01)\<close> loop. It returns the list of breakevens; the
  values it leaves in \<open>low\<close>, \<open>high\<close> and \<open>lastPL\<close> are not read again (\<open>lastPL\<close> is
  overwritten at the end of the enclosing iteration). A loop that does not end is
  \<open>None\<close>.
\<close>

partial_function (option) bisect ::
  "leg list \<Rightarrow> jsnum \<Rightarrow> jsnum \<Rightarrow> jsnum \<Rightarrow> jsnum list \<Rightarrow> jsnum list option" where
  "bisect legs low high lastPL breakevens =
     (if js_lt (Fin 0.01) (js_sub high low)
      then let mid = js_div (js_add low high) (Fin 2);
               midPL = calculatePLAtExpiration legs mid
           in if js_lt (js_abs midPL) (Fin 0.01) then Some (breakevens @ [mid])
              else if zero_crossing lastPL midPL then bisect legs low mid lastPL breakevens
              else bisect legs mid high midPL breakevens
      else Some breakevens)"

declare bisect.simps [code]

text \<open>
  The scan \<open>for (let price = startPrice; price <= endPrice; price += 0.25)\<close>;
  \<open>lastPL\<close> is \<open>None\<close> while it is \<open>null\<close>.
\<close>

partial_function (option) breakeven_scan ::
  "leg list \<Rightarrow> jsnum \<Rightarrow> jsnum \<Rightarrow> jsnum option \<Rightarrow> jsnum list \<Rightarrow> jsnum list option" where
  "breakeven_scan legs price endPrice lastPL breakevens =
     (if js_le price endPrice
      then let currentPL = calculatePLAtExpiration legs price
           in case lastPL of
                None \<Rightarrow>
                  breakeven_scan legs (js_add price (Fin 0.25)) endPrice (Some currentPL) breakevens
              | Some lastPL' \<Rightarrow>
                  if zero_crossing lastPL' currentPL
                  then Option.bind (bisect legs (js_sub price (Fin 0.25)) price lastPL' breakevens)
                         (\<lambda>breakevens'.
                            breakeven_scan legs (js_add price (Fin 0.25)) endPrice
                              (Some currentPL) breakevens')
                  else breakeven_scan legs (js_add price (Fin 0.25)) endPrice
                         (Some currentPL) breakevens
      else Some breakevens)"

declare breakeven_scan.simps [code]

definition calculateBreakevens :: "leg list \<Rightarrow> jsnum list option" where
  "calculateBreakevens legs =
     (let minStrike = Math_min (map (\<lambda>l. Fin (strike l)) legs);
          maxStrike = Math_max (map (\<lambda>l. Fin (strike l)) legs);
          priceRange = js_max (js_sub maxStrike minStrike) (Fin 50);
          startPrice = js_sub minStrike (js_mul priceRange (Fin 0.5));
          endPrice = js_add maxStrike (js_mul priceRange (Fin 0.5))
      in Option.bind (breakeven_scan legs startPrice endPrice None [])
           (\<lambda>breakevens.
              Some (js_set_spread
                (map (\<lambda>be. js_div (js_round (js_mul be (Fin 100))) (Fin 100)) breakevens))))"

text \<open>
  The scan \<open>for (let price = startPrice; price <= endPrice; price += 0.5)\<close> of
  \<open>calculateMaxProfitLoss\<close>, returning the running \<open>maxProfit\<close> and \<open>maxLoss\<close>.
\<close>

partial_function (option) extrema_scan ::
  "leg list \<Rightarrow> jsnum \<Rightarrow> jsnum \<Rightarrow> jsnum \<Rightarrow> jsnum \<Rightarrow> (jsnum \<times> jsnum) option" where
  "extrema_scan legs price endPrice maxProfit maxLoss =
     (if js_le price endPrice
      then let pl = calculatePLAtExpiration legs price
           in extrema_scan legs (js_add price (Fin 0.5)) endPrice
                (js_max maxProfit pl) (js_min maxLoss pl)
      else Some (maxProfit, maxLoss))"

declare extrema_scan.simps [code]

text \<open>The result object; \<open>None\<close> is \<open>null\<close>.\<close>

record max_profit_loss =
  maxProfit :: "jsnum option"
  maxLoss :: "jsnum option"

definition calculateMaxProfitLoss :: "leg list \<Rightarrow> max_profit_loss option" where
  "calculateMaxProfitLoss legs =
     (let strikes = map (\<lambda>l. Fin (strike l)) legs;
          minStrike = Math_min strikes;
          maxStrike = Math_max strikes;
          priceRange = js_max (js_sub maxStrike minStrike) (Fin 100);
          startPrice = js_max (Fin 0.01) (js_sub minStrike priceRange);
          endPrice = js_add maxStrike priceRange
      in Option.bind (extrema_scan legs startPrice endPrice NInf PInf)
           (\<lambda>(maxProfit0, maxLoss0).
              let extremeLow = calculatePLAtExpiration legs (Fin 0.01);
                  extremeHigh = calculatePLAtExpiration legs (js_mul endPrice (Fin 2));
                  maxProfit1 = js_max (js_max maxProfit0 extremeLow) extremeHigh;
                  maxLoss1 = js_min (js_min maxLoss0 extremeLow) extremeHigh
              in Some \<lparr>maxProfit = (if maxProfit1 = NInf then None else Some maxProfit1),
                       maxLoss = (if maxLoss1 = PInf then None else Some maxLoss1)\<rparr>))"

section \<open>generatePLCurve\<close>

record pl_point =
  stockPrice :: real
  pl :: jsnum

record pl_curve =
  atExpiration :: "pl_point list"
  current :: "pl_point list"

text \<open>
  The loop \<open>for (let price = startPrice; price <= endPrice; price += step)\<close>, pushing one
  point on each of the two arrays per iteration; \<open>calculateCurrentPL(price)\<close> is called
  with its default rate 0.05 and volatility 0.25. A loop that does not end is \<open>None\<close>.
\<close>

partial_function (option) curve_loop ::
  "real \<Rightarrow> leg list \<Rightarrow> real \<Rightarrow> real \<Rightarrow> real \<Rightarrow> pl_point list \<Rightarrow> pl_point list
   \<Rightarrow> pl_curve option" where
  "curve_loop now legs price endPrice step plAtExpiration plCurrent =
     (if price \<le> endPrice
      then curve_loop now legs (price + step) endPrice step
             (plAtExpiration @
                [\<lparr>stockPrice = price, pl = calculatePLAtExpiration legs (Fin price)\<rparr>])
             (plCurrent @
                [\<lparr>stockPrice = price, pl = Fin (calculateCurrentPL now legs price 0.05 0.25)\<rparr>])
      else Some \<lparr>atExpiration = plAtExpiration, current = plCurrent\<rparr>)"

declare curve_loop.simps [code]

text \<open>
  \<open>priceRange\<close> is \<open>None\<close> for \<open>null\<close>; \<open>priceRange || currentStockPrice * 0.5\<close> takes the
  default when \<open>priceRange\<close> is \<open>null\<close> or 0.
\<close>

definition generatePLCurve :: "real \<Rightarrow> leg list \<Rightarrow> real option \<Rightarrow> real \<Rightarrow> pl_curve option" where
  "generatePLCurve now legs priceRange currentStockPrice =
     (let range = (case priceRange of
                     None \<Rightarrow> currentStockPrice * 0.5
                   | Some pr \<Rightarrow> if pr = 0 then currentStockPrice * 0.5 else pr);
          startPrice = max 0.01 (currentStockPrice - range);
          endPrice = currentStockPrice + range;
          step = (endPrice - startPrice) / 100
      in curve_loop now legs startPrice endPrice step [] [])"

section \<open>The strategies of the worked examples\<close>

text \<open>A single long call: strike \<open>K\<close>, premium \<open>p\<close>, quantity 1, expiring at \<open>e\<close>.\<close>

definition single_long_call :: "real \<Rightarrow> real \<Rightarrow> real \<Rightarrow> leg list" where
  "single_long_call K p e =
     [\<lparr>type = Long, strike = K, premium = p, quantity = 1, optionType = Call, expiration = e\<rparr>]"

text \<open>
  A long straddle: a long call and a long put at the same strike \<open>K\<close>, with premiums
  \<open>p1\<close> and \<open>p2\<close>, quantity 1 each.
\<close>

definition long_straddle :: "real \<Rightarrow> real \<Rightarrow> real \<Rightarrow> real \<Rightarrow> leg list" where
  "long_straddle K p1 p2 e =
     [\<lparr>type = Long, strike = K, premium = p1, quantity = 1, optionType = Call, expiration = e\<rparr>,
      \<lparr>type = Long, strike = K, premium = p2, quantity = 1, optionType = Put, expiration = e\<rparr>]"

section \<open>Pricing at or past expiry\<close>

text \<open>
  C3. For every S, K, r, sigma and every T \<le> 0, \<open>callPrice\<close> is \<open>max (S - K) 0\<close> and
  \<open>putPrice\<close> is \<open>max (K - S) 0\<close>: at or past expiry the price is the intrinsic value.
\<close>

theorem price_at_expiry_is_intrinsic:
  assumes "T \<le> 0"
  shows "callPrice S K T r sigma = max (S - K) 0 \<and> putPrice S K T r sigma = max (K - S) 0"
  using assms by (simp add: callPrice_def putPrice_def)

theorem price_at_expiry_is_intrinsic_witness:
  "(0::real) \<le> 0 \<and> callPrice 110 100 0 0.05 0.25 = 10 \<and> putPrice 110 100 0 0.05 0.25 = 0
   \<and> callPrice 90 100 (- 1) 0.05 0.25 = 0 \<and> putPrice 90 100 (- 1) 0.05 0.25 = 10"
  using price_at_expiry_is_intrinsic [of 0 110 100 "0.05" "0.25"]
    price_at_expiry_is_intrinsic [of "- 1" 90 100 "0.05" "0.25"]
  by simp

section \<open>The implied-volatility solver\<close>

lemma iv_loop_expired:
  assumes "T \<le> 0"
  shows "snd (iv_loop n marketPrice S K T r ot tolerance sigma) = sigma"
  using assms by (cases n) (simp_all add: vega_def Let_def)

text \<open>
  C10. For every market price, S, K, r and option type, when T \<le> 0 the solver returns
  exactly its initial guess 0.30: the vega is 0 there, so the loop is left on its first
  iteration (through the tolerance test or the zero-vega \<open>break\<close>) before sigma is ever
  updated, however far the market price is from the intrinsic value.
\<close>

theorem impliedVolatility_expired:
  assumes "T \<le> 0"
  shows "impliedVolatility marketPrice S K T r ot tolerance maxIterations = 0.3"
  unfolding impliedVolatility_def impliedVolatility_run_def
  using assms by (rule iv_loop_expired)

theorem impliedVolatility_expired_witness:
  "(0::real) \<le> 0 \<and> impliedVolatility 50 100 100 0 0.05 Call 0.0001 100 = 0.3"
  using impliedVolatility_expired [of 0 50 100 100 "0.05" Call "0.0001" 100]
  by simp

section \<open>Strategy analytics\<close>

lemma single_long_call_pl:
  "calculatePLAtExpiration (single_long_call K p e) (Fin x) = Fin ((max 0 (x - K) - p) * 100)"
  by (simp add: single_long_call_def calculatePLAtExpiration_def leg_pl_at_expiration_def
      js_sub_def max_def)

lemma long_straddle_pl:
  "calculatePLAtExpiration (long_straddle K p1 p2 e) (Fin x) = Fin ((\<bar>x - K\<bar> - p1 - p2) * 100)"
  by (simp add: long_straddle_def calculatePLAtExpiration_def leg_pl_at_expiration_def
      js_sub_def max_def abs_if algebra_simps)

lemma single_long_call_scan:
  "breakeven_scan (single_long_call 100 1 e) (Fin 75) (Fin 125) None [] = Some []"
  by (simp add: breakeven_scan.simps bisect.simps single_long_call_pl zero_crossing_def js_sub_def)

text \<open>
  C1. For a single long call with strike K, premium p and quantity 1, the specification
  expects \<open>calculateBreakevens\<close> to return exactly one price, about K + p, and the
  expiration P&L at K + p to be about 0. At K = 100, p = 1 the P&L at 101 is 0, but the
  program returns no breakeven at all: both bisections around 101 end on the interval
  width without ever meeting \<open>|midPL| < 0.01\<close>, and only that test records a price.
\<close>

theorem single_long_call_no_breakeven:
  "calculateBreakevens (single_long_call 100 1 0) = Some []
   \<and> calculatePLAtExpiration (single_long_call 100 1 0) (Fin (100 + 1)) = Fin 0"
proof -
  have "Math_min (map (\<lambda>l. Fin (strike l)) (single_long_call 100 1 0)) = Fin 100"
    and "Math_max (map (\<lambda>l. Fin (strike l)) (single_long_call 100 1 0)) = Fin 100"
    by (simp_all add: single_long_call_def Math_min_def Math_max_def)
  then show ?thesis
    by (simp add: calculateBreakevens_def single_long_call_scan single_long_call_pl js_sub_def
        js_set_spread_def Let_def)
qed

text \<open>
  C2. With no legs the specification expects an empty list of breakevens and \<open>null\<close>
  for both extrema. The program returns the empty list, but both extrema are the
  number 0: the two boundary samples are always taken, and with no legs each is 0.
\<close>

theorem no_legs_extrema_are_zero:
  "calculateBreakevens [] = Some []
   \<and> calculateMaxProfitLoss [] = Some \<lparr>maxProfit = Some (Fin 0), maxLoss = Some (Fin 0)\<rparr>"
  by (simp add: calculateBreakevens_def calculateMaxProfitLoss_def Math_min_def Math_max_def
      js_sub_def breakeven_scan.simps extrema_scan.simps js_set_spread_def
      calculatePLAtExpiration_def js_signed_inf_def Let_def)

lemma js_le_max:
  "js_le mp (Fin B) \<Longrightarrow> v \<le> B \<Longrightarrow> js_le (js_max mp (Fin v)) (Fin B)"
  by (cases mp) simp_all

lemma extrema_scan_upper:
  assumes pl: "\<And>y. s \<le> y \<Longrightarrow> y \<le> e \<Longrightarrow> \<exists>v. calculatePLAtExpiration legs (Fin y) = Fin v \<and> v \<le> B"
  shows "e < x + real n / 2 \<Longrightarrow> s \<le> x \<Longrightarrow> js_le mp (Fin B) \<Longrightarrow>
         \<exists>mp' ml'. extrema_scan legs (Fin x) (Fin e) mp ml = Some (mp', ml') \<and> js_le mp' (Fin B)"
proof (induction n arbitrary: x mp ml)
  case 0
  then show ?case by (subst extrema_scan.simps) simp
next
  case (Suc n)
  show ?case
  proof (cases "x \<le> e")
    case True
    with pl [of x] Suc.prems obtain v
      where v: "calculatePLAtExpiration legs (Fin x) = Fin v" "v \<le> B" by blast
    have "\<exists>mp' ml'. extrema_scan legs (Fin (x + 1 / 2)) (Fin e) (js_max mp (Fin v))
             (js_min ml (Fin v)) = Some (mp', ml') \<and> js_le mp' (Fin B)"
      using Suc.prems v by (intro Suc.IH js_le_max) (simp_all add: field_simps)
    with True v show ?thesis by (subst extrema_scan.simps) (simp add: Let_def)
  next
    case False
    with Suc.prems show ?thesis by (subst extrema_scan.simps) simp
  qed
qed

lemma js_max_extremes:
  "js_le mp (Fin B) \<Longrightarrow> B \<le> hi \<Longrightarrow> lo \<le> hi \<Longrightarrow> js_max (js_max mp (Fin lo)) (Fin hi) = Fin hi"
  by (cases mp) (simp_all add: max_def)

lemma long_straddle_maxProfit_value:
  assumes "0 < K"
  shows "map_option maxProfit (calculateMaxProfitLoss (long_straddle K p1 p2 e))
         = Some (Some (Fin ((K + 200 - p1 - p2) * 100)))"
proof -
  let ?legs = "long_straddle K p1 p2 e"
  let ?s = "max 0.01 (K - 100)"
  have strikes: "Math_min (map (\<lambda>l. Fin (strike l)) ?legs) = Fin K"
    "Math_max (map (\<lambda>l. Fin (strike l)) ?legs) = Fin K"
    by (simp_all add: long_straddle_def Math_min_def Math_max_def)
  have "\<exists>n. K + 100 < ?s + real n / 2"
    using reals_Archimedean2 [of "2 * (K + 100 - ?s)"] by (auto simp: field_simps)
  then obtain n where n: "K + 100 < ?s + real n / 2" ..
  have "\<exists>mp' ml'. extrema_scan ?legs (Fin ?s) (Fin (K + 100)) NInf PInf = Some (mp', ml')
          \<and> js_le mp' (Fin ((100 - p1 - p2) * 100))"
  proof (rule extrema_scan_upper [where s = ?s and n = n])
    fix y :: real
    assume "?s \<le> y" "y \<le> K + 100"
    then have "\<bar>y - K\<bar> \<le> 100" by (simp add: abs_le_iff)
    then show "\<exists>v. calculatePLAtExpiration ?legs (Fin y) = Fin v \<and> v \<le> (100 - p1 - p2) * 100"
      by (simp add: long_straddle_pl)
  qed (use n in simp_all)
  then obtain mp' ml'
    where scan: "extrema_scan ?legs (Fin ?s) (Fin (K + 100)) NInf PInf = Some (mp', ml')"
      and mp': "js_le mp' (Fin ((100 - p1 - p2) * 100))" by blast
  let ?lo = "(\<bar>0.01 - K\<bar> - p1 - p2) * 100"
  let ?hi = "(K + 200 - p1 - p2) * 100"
  have pr: "js_max (js_sub (Fin K) (Fin K)) (Fin 100) = Fin 100"
    by (simp add: js_sub_def)
  have st: "js_max (Fin 0.01) (js_sub (Fin K) (Fin 100)) = Fin ?s"
    by (simp add: js_sub_def max_def)
  have en: "js_add (Fin K) (Fin 100) = Fin (K + 100)"
    by simp
  have el: "calculatePLAtExpiration ?legs (Fin 0.01) = Fin ?lo"
    by (rule long_straddle_pl)
  have "\<bar>(K + 100) * 2 - K\<bar> = K + 200"
    using assms by simp
  then have eh: "calculatePLAtExpiration ?legs (js_mul (Fin (K + 100)) (Fin 2)) = Fin ?hi"
    by (simp add: long_straddle_pl)
  have "\<bar>0.01 - K\<bar> \<le> K + 200"
    using assms by (simp add: abs_le_iff)
  then have lo: "?lo \<le> ?hi"
    by simp
  have mx: "js_max (js_max mp' (Fin ?lo)) (Fin ?hi) = Fin ?hi"
    using assms by (intro js_max_extremes [OF mp' _ lo]) simp
  show ?thesis
    unfolding calculateMaxProfitLoss_def Let_def strikes pr st en scan el eh
    by (simp only: Option.bind.simps prod.case mx) simp
qed

text \<open>
  C8. For a long straddle the specification expects \<open>maxProfit\<close> to be the sentinel for an
  unbounded profit, which the program writes as \<open>null\<close> (shown as "Unlimited"). At
  K = 100 with premiums 5 and 5 the program reports the finite number 29000 instead, the
  P&L at twice the upper end of the scan: the extrema are taken over sampled prices only,
  and the \<open>null\<close> branch needs a maximum of \<open>-Infinity\<close>, while the two boundary samples
  are always folded in. The P&L at a stock price of 1000 is 89000, above the reported
  maximum.
\<close>

theorem long_straddle_maxProfit_is_finite:
  "map_option maxProfit (calculateMaxProfitLoss (long_straddle 100 5 5 0)) = Some (Some (Fin 29000))
   \<and> calculatePLAtExpiration (long_straddle 100 5 5 0) (Fin 1000) = Fin 89000"
  using long_straddle_maxProfit_value [of 100 5 5 0] by (simp add: long_straddle_pl)

section \<open>The P&L curve\<close>

text \<open>The points the loop pushes in n iterations from \<open>price\<close>.\<close>

lemma curve_loop_runs:
  assumes "0 < step"
  shows "endPrice < price + real n * step \<Longrightarrow> (0 < n \<Longrightarrow> price + (real n - 1) * step \<le> endPrice) \<Longrightarrow>
    curve_loop now legs price endPrice step accE accC =
      Some \<lparr>atExpiration = accE @ map (\<lambda>k. \<lparr>stockPrice = price + real k * step,
                 pl = calculatePLAtExpiration legs (Fin (price + real k * step))\<rparr>) [0..<n],
            current = accC @ map (\<lambda>k. \<lparr>stockPrice = price + real k * step,
                 pl = Fin (calculateCurrentPL now legs (price + real k * step) 0.05 0.25)\<rparr>) [0..<n]\<rparr>"
proof (induction n arbitrary: price accE accC)
  case 0
  then show ?case by (subst curve_loop.simps) simp
next
  case (Suc n)
  from Suc.prems assms have le: "price \<le> endPrice"
    by (smt (verit) mult_nonneg_nonneg of_nat_0_le_iff of_nat_Suc add_diff_cancel_left' zero_less_Suc)
  have step: "price + step + real k * step = price + real (Suc k) * step" for k
    by (simp add: algebra_simps)
  have "curve_loop now legs (price + step) endPrice step
          (accE @ [\<lparr>stockPrice = price, pl = calculatePLAtExpiration legs (Fin price)\<rparr>])
          (accC @ [\<lparr>stockPrice = price, pl = Fin (calculateCurrentPL now legs price 0.05 0.25)\<rparr>])
        = Some \<lparr>atExpiration = (accE @ [\<lparr>stockPrice = price, pl = calculatePLAtExpiration legs (Fin price)\<rparr>])
                  @ map (\<lambda>k. \<lparr>stockPrice = price + step + real k * step,
                     pl = calculatePLAtExpiration legs (Fin (price + step + real k * step))\<rparr>) [0..<n],
                current = (accC @ [\<lparr>stockPrice = price, pl = Fin (calculateCurrentPL now legs price 0.05 0.25)\<rparr>])
                  @ map (\<lambda>k. \<lparr>stockPrice = price + step + real k * step,
                     pl = Fin (calculateCurrentPL now legs (price + step + real k * step) 0.05 0.25)\<rparr>) [0..<n]\<rparr>"
    using Suc.prems by (intro Suc.IH) (simp_all add: algebra_simps)
  with le show ?case
    by (subst curve_loop.simps) (simp add: step map_upt_Suc del: upt_Suc of_nat_Suc)
qed

lemma generatePLCurve_default_100:
  "generatePLCurve now legs None 100 =
     Some \<lparr>atExpiration = map (\<lambda>k. \<lparr>stockPrice = 50 + real k,
                 pl = calculatePLAtExpiration legs (Fin (50 + real k))\<rparr>) [0..<101],
           current = map (\<lambda>k. \<lparr>stockPrice = 50 + real k,
                 pl = Fin (calculateCurrentPL now legs (50 + real k) 0.05 0.25)\<rparr>) [0..<101]\<rparr>"
  using curve_loop_runs [of 1 150 50 101 now legs "[]" "[]"]
  by (simp add: generatePLCurve_def)

text \<open>
  C9. The specification (and the comment \<open>// 100 data points\<close>) expects exactly 100
  equally spaced prices. The loop runs from \<open>startPrice\<close> to \<open>endPrice\<close> inclusive in
  steps of a hundredth of the width, so both ends are sampled: at a stock price of 100
  with the default range, the two sequences hold the 101 prices 50, 51, ..., 150. They
  have the same length and the same price at each index.
\<close>

theorem generatePLCurve_has_101_points:
  "map_option (\<lambda>c. length (atExpiration c)) (generatePLCurve now legs None 100) = Some 101
   \<and> map_option (\<lambda>c. length (current c)) (generatePLCurve now legs None 100) = Some 101
   \<and> map_option (\<lambda>c. map stockPrice (atExpiration c)) (generatePLCurve now legs None 100)
       = Some (map (\<lambda>k. 50 + real k) [0..<101])
   \<and> map_option (\<lambda>c. map stockPrice (current c)) (generatePLCurve now legs None 100)
       = Some (map (\<lambda>k. 50 + real k) [0..<101])"
  by (simp add: generatePLCurve_default_100 comp_def)

section \<open>Put-call parity\<close>

lemma normalCDF_alt:
  "normalCDF x = 0.5 * (1 + (if x < 0 then - 1 else 1) * (1 - normalCDF_tail (\<bar>x\<bar> / sqrt 2)))"
  by (simp add: normalCDF_def normalCDF_tail_def Let_def)







section \<open>A solver run that does not converge\<close>

lemma d1_atm:
  assumes "0 < sigma"
  shows "calculateD1 100 100 2 0 sigma = sigma / sqrt 2"
proof -
  have "sigma * sigma / (sigma * sqrt 2) = sigma / sqrt 2"
    using assms by simp
  then show ?thesis by (simp add: calculateD1_def)
qed

lemma callPrice_atm:
  assumes "0 < sigma"
  shows "callPrice 100 100 2 0 sigma = 100 * (1 - normalCDF_tail (sigma / 2))"
proof -
  define d where "d = sigma / sqrt 2"
  have d: "0 < d" using assms by (simp add: d_def)
  have d2: "calculateD2 d sigma 2 = - d"
    by (simp add: calculateD2_def d_def field_simps)
  have arg: "d / sqrt 2 = sigma / 2"
    using assms by (simp add: d_def)
  have "callPrice 100 100 2 0 sigma = 100 * normalCDF d - 100 * normalCDF (- d)"
    using assms by (simp add: callPrice_def d1_atm d_def [symmetric] d2)
  also have "\<dots> = 100 * (1 - normalCDF_tail (sigma / 2))"
    using d by (simp add: normalCDF_alt arg algebra_simps)
  finally show ?thesis .
qed

lemma vega_atm:
  assumes "0 < sigma"
  shows "0 < vega 100 100 2 0 sigma * 100" and "vega 100 100 2 0 sigma * 100 \<le> 200"
proof -
  define d where "d = calculateD1 100 100 2 0 sigma"
  have v: "vega 100 100 2 0 sigma * 100 = 100 * normalPDF d * sqrt 2"
    by (simp add: vega_def d_def)
  have r: "1 \<le> sqrt (2 * pi)"
    using pi_ge_two by (simp add: real_le_rsqrt)
  have "exp (- 0.5 * d * d) \<le> 1"
    by simp
  with r have "exp (- 0.5 * d * d) \<le> sqrt (2 * pi)"
    by linarith
  with r have pdf: "0 < normalPDF d" "normalPDF d \<le> 1"
    unfolding normalPDF_def by (simp_all add: divide_le_eq_1)
  have s: "0 < sqrt 2" "sqrt 2 \<le> (2::real)"
    by (simp_all add: real_le_lsqrt)
  show "0 < vega 100 100 2 0 sigma * 100"
    unfolding v using pdf s by simp
  have "normalPDF d * sqrt 2 \<le> 1 * 2"
    using pdf s by (intro mult_mono) simp_all
  then show "vega 100 100 2 0 sigma * 100 \<le> 200"
    unfolding v by simp
qed

lemma tail_low: "1 / 2 \<le> normalCDF_tail (3 / 20)"
proof -
  have "1 + (- (9 / 400)) \<le> exp (- (9 / 400) :: real)"
    by (rule exp_ge_add_one_self)
  then have e: "391 / 400 \<le> exp (- (3 / 20) * (3 / 20) :: real)" by simp
  define c :: real where "c = exp (- (3 / 20) * (3 / 20))"
  have "normalCDF_tail (3 / 20) = c * (
     let t = 1 / (1 + 0.3275911 * (3 / 20))
      in (((((1.061405429 * t + - 1.453152027) * t) + 1.421413741) * t + - 0.284496736) * t
            + 0.254829592) * t)"
    by (simp add: normalCDF_tail_def Let_def c_def)
  also have "\<dots> \<ge> 1 / 2"
    using e unfolding c_def [symmetric] by (simp add: Let_def)
  finally show ?thesis .
qed

lemma tail_high:
  shows "0 \<le> normalCDF_tail (5 / 2)" and "normalCDF_tail (5 / 2) < 1 / 2"
proof -
  define c :: real where "c = exp (- (5 / 2) * (5 / 2))"
  have c: "0 < c" "c \<le> 1"
    by (simp_all add: c_def)
  define q :: real where "q =
     (let t = 1 / (1 + 0.3275911 * (5 / 2))
      in (((((1.061405429 * t + - 1.453152027) * t) + 1.421413741) * t + - 0.284496736) * t
            + 0.254829592) * t)"
  have q: "0 \<le> q" "q < 1 / 2"
    by (simp_all add: q_def Let_def)
  have t: "normalCDF_tail (5 / 2) = q * c"
    by (simp add: normalCDF_tail_def Let_def c_def q_def)
  show "0 \<le> normalCDF_tail (5 / 2)"
    unfolding t using q c by simp
  have "q * c \<le> q * 1"
    using q c by (intro mult_left_mono) simp_all
  with q show "normalCDF_tail (5 / 2) < 1 / 2"
    unfolding t by simp
qed

lemma price_low: "callPrice 100 100 2 0 (3 / 10) \<le> 50"
  using tail_low by (simp add: callPrice_atm)

lemma price_high:
  shows "50 < callPrice 100 100 2 0 5" and "callPrice 100 100 2 0 5 \<le> 100"
  using tail_high by (simp_all add: callPrice_atm)

lemma iv_loop_step:
  "\<not> \<bar>model_price ot S K T r sigma - marketPrice\<bar> < tolerance \<Longrightarrow>
   vega S K T r sigma * 100 \<noteq> 0 \<Longrightarrow>
   iv_loop (Suc n) marketPrice S K T r ot tolerance sigma
     = iv_loop n marketPrice S K T r ot tolerance (newton_update marketPrice S K T r ot sigma)"
  by (simp add: Let_def newton_update_def)

lemma iv_loop_stop:
  "\<bar>model_price ot S K T r sigma - marketPrice\<bar> < tolerance \<Longrightarrow>
   iv_loop (Suc n) marketPrice S K T r ot tolerance sigma = (Converged, sigma)"
  by (simp add: Let_def)

text \<open>
  A call at S = K = 100, T = 2, r = 0 quoted at 1000, far above any model price: the
  first update, from 0.30, is clamped to 5, and every later update stays at 5.
\<close>

lemma first_update: "newton_update 1000 100 100 2 0 Call (3 / 10) = 5"
proof -
  define v where "v = vega 100 100 2 0 (3 / 10) * 100"
  define c where "c = callPrice 100 100 2 0 (3 / 10)"
  have v: "0 < v" "v \<le> 200"
    unfolding v_def by (rule vega_atm; simp)+
  have c: "c \<le> 50"
    unfolding c_def by (rule price_low)
  define w where "w = (c - 1000) / v"
  have "950 / 200 \<le> (1000 - c) / v"
    using v c by (intro frac_le) simp_all
  moreover have "(1000 - c) / v = - w"
    using v by (simp add: w_def field_simps)
  ultimately have "5 \<le> 3 / 10 - w"
    by linarith
  then have "max (1 / 100) (min 5 (3 / 10 - w)) = 5"
    by simp
  then show ?thesis
    by (simp add: newton_update_def model_price_def Let_def v_def c_def w_def)
qed

lemma later_update: "newton_update 1000 100 100 2 0 Call 5 = 5"
proof -
  define v where "v = vega 100 100 2 0 5 * 100"
  define c where "c = callPrice 100 100 2 0 5"
  have v: "0 < v"
    unfolding v_def by (rule vega_atm) simp
  have c: "c \<le> 100"
    unfolding c_def by (rule price_high)
  define w where "w = (c - 1000) / v"
  have "0 \<le> (1000 - c) / v"
    using v c by simp
  moreover have "(1000 - c) / v = - w"
    using v by (simp add: w_def field_simps)
  ultimately have "5 \<le> 5 - w"
    by linarith
  then have "max (1 / 100) (min 5 (5 - w)) = 5"
    by simp
  then show ?thesis
    by (simp add: newton_update_def model_price_def Let_def v_def c_def w_def)
qed

lemma iv_loop_pinned:
  assumes "tolerance \<le> 900"
  shows "iv_loop n 1000 100 100 2 0 Call tolerance 5 = (Exhausted, 5)"
proof (induction n)
  case 0
  show ?case by simp
next
  case (Suc n)
  have "iv_loop (Suc n) 1000 100 100 2 0 Call tolerance 5
      = iv_loop n 1000 100 100 2 0 Call tolerance (newton_update 1000 100 100 2 0 Call 5)"
  proof (rule iv_loop_step)
    show "\<not> \<bar>model_price Call 100 100 2 0 5 - 1000\<bar> < tolerance"
      using price_high(2) assms by (simp add: model_price_def)
    show "vega 100 100 2 0 5 * 100 \<noteq> 0"
      using vega_atm(1) [of 5] by simp
  qed
  with Suc.IH show ?case
    by (simp only: later_update)
qed

lemma iv_loop_from_start:
  assumes "tolerance \<le> 950"
  shows "iv_loop (Suc n) 1000 100 100 2 0 Call tolerance (3 / 10)
         = iv_loop n 1000 100 100 2 0 Call tolerance 5"
proof -
  have "iv_loop (Suc n) 1000 100 100 2 0 Call tolerance (3 / 10)
      = iv_loop n 1000 100 100 2 0 Call tolerance (newton_update 1000 100 100 2 0 Call (3 / 10))"
  proof (rule iv_loop_step)
    show "\<not> \<bar>model_price Call 100 100 2 0 (3 / 10) - 1000\<bar> < tolerance"
      using price_low assms by (simp add: model_price_def)
    show "vega 100 100 2 0 (3 / 10) * 100 \<noteq> 0"
      using vega_atm(1) [of "3 / 10"] by simp
  qed
  then show ?thesis
    by (simp only: first_update)
qed

lemma run_exhausted:
  "impliedVolatility_run 1000 100 100 2 0 Call (1 / 10000) 100 = (Exhausted, 5)"
proof -
  have "iv_loop (Suc 99) 1000 100 100 2 0 Call (1 / 10000) (3 / 10)
      = iv_loop 99 1000 100 100 2 0 Call (1 / 10000) 5"
    by (rule iv_loop_from_start) simp
  also have "\<dots> = (Exhausted, 5)"
    by (rule iv_loop_pinned) simp
  finally show ?thesis
    by (simp add: impliedVolatility_run_def)
qed

lemma run_converged:
  "impliedVolatility_run 1000 100 100 2 0 Call 950 100 = (Converged, 5)"
proof -
  have "iv_loop (Suc (Suc 98)) 1000 100 100 2 0 Call 950 (3 / 10)
      = iv_loop (Suc 98) 1000 100 100 2 0 Call 950 5"
    by (rule iv_loop_from_start) simp
  also have "\<dots> = (Converged, 5)"
  proof (rule iv_loop_stop)
    show "\<bar>model_price Call 100 100 2 0 5 - 1000\<bar> < 950"
      using price_high by (simp add: model_price_def)
  qed
  finally show ?thesis
    by (simp add: impliedVolatility_run_def)
qed

lemma iv_loop_exhausted_value:
  "fst (iv_loop n marketPrice S K T r ot tolerance sigma) = Exhausted \<Longrightarrow>
   snd (iv_loop n marketPrice S K T r ot tolerance sigma)
     = (newton_update marketPrice S K T r ot ^^ n) sigma"
proof (induction n arbitrary: sigma)
  case 0
  then show ?case by simp
next
  case (Suc n)
  let ?next = "newton_update marketPrice S K T r ot sigma"
  from Suc.prems have run: "iv_loop (Suc n) marketPrice S K T r ot tolerance sigma
      = iv_loop n marketPrice S K T r ot tolerance ?next"
    by (simp add: Let_def newton_update_def split: if_splits)
  with Suc.prems have "fst (iv_loop n marketPrice S K T r ot tolerance ?next) = Exhausted"
    by simp
  then have "snd (iv_loop n marketPrice S K T r ot tolerance ?next)
      = (newton_update marketPrice S K T r ot ^^ n) ?next"
    by (rule Suc.IH)
  then show ?case
    unfolding run by (simp add: funpow_swap1)
qed

text \<open>
  C6 (as amended). When \<open>impliedVolatility\<close> exhausts its iteration budget without
  meeting the tolerance, it returns the last sigma reached, that is \<open>maxIterations\<close>
  clamped Newton updates applied to 0.30, as a bare number: the result carries no tag,
  and a converged call can return the same number.
\<close>

theorem exhausted_returns_last_iterate:
  assumes "fst (impliedVolatility_run marketPrice S K T r ot tolerance maxIterations) = Exhausted"
  shows "impliedVolatility marketPrice S K T r ot tolerance maxIterations
         = (newton_update marketPrice S K T r ot ^^ maxIterations) 0.3"
  using assms unfolding impliedVolatility_def impliedVolatility_run_def
  by (rule iv_loop_exhausted_value)

theorem exhausted_returns_last_iterate_witness:
  "fst (impliedVolatility_run 1000 100 100 2 0 Call (1 / 10000) 100) = Exhausted
   \<and> impliedVolatility 1000 100 100 2 0 Call (1 / 10000) 100
       = (newton_update 1000 100 100 2 0 Call ^^ 100) 0.3"
  using exhausted_returns_last_iterate [of 1000 100 100 2 0 Call "1 / 10000" 100]
  unfolding run_exhausted by simp

text \<open>
  The call quoted at 1000 with the default tolerance 0.0001 exhausts its 100 iterations
  and returns 5; with tolerance 950 the same call meets the tolerance on its second
  iteration and returns 5 as well. The two results are the same number.
\<close>

theorem exhausted_result_is_untagged_counterexample:
  "impliedVolatility_run 1000 100 100 2 0 Call (1 / 10000) 100 = (Exhausted, 5)
   \<and> impliedVolatility_run 1000 100 100 2 0 Call 950 100 = (Converged, 5)
   \<and> impliedVolatility 1000 100 100 2 0 Call (1 / 10000) 100
       = impliedVolatility 1000 100 100 2 0 Call 950 100"
  unfolding impliedVolatility_def run_exhausted run_converged by simp

section \<open>The sign of the closed-form prices\<close>

lemma normalCDF_tail_poly:
  "normalCDF_tail x = tail_poly (1 / (1 + 0.3275911 * x)) * exp (- x * x)"
  by (simp add: normalCDF_tail_def tail_poly_def Let_def)

lemma tail_poly_has_deriv: "(tail_poly has_real_derivative tail_poly_deriv t) (at t)"
  unfolding tail_poly_def tail_poly_deriv_def
  by (auto intro!: derivative_eq_intros simp: algebra_simps power2_eq_square power3_eq_cube power4_eq_xxxx)

lemma tail_poly_deriv_nonneg:
  assumes "0 \<le> t" "t \<le> 1"
  shows "0 \<le> tail_poly_deriv t"
proof -
  have "tail_poly_deriv t =
      (4 / 10 * (t - 7 / 10)\<^sup>2 + (0.058829592 - 0.008993472 * t))
      + t\<^sup>2 * (5 * (t - 55 / 100)\<^sup>2 + (2.351741223 - 0.312608108 * t) + 0.307027145 * t\<^sup>2)"
    unfolding tail_poly_deriv_def by (simp add: power2_eq_square power3_eq_cube power4_eq_xxxx algebra_simps)
  moreover have "0 \<le> 0.058829592 - 0.008993472 * t" using assms by simp
  moreover have "0 \<le> 2.351741223 - 0.312608108 * t" using assms by simp
  ultimately show ?thesis by simp
qed

lemma tail_poly_mono:
  assumes "0 \<le> s" "s \<le> t" "t \<le> 1"
  shows "tail_poly s \<le> tail_poly t"
proof (rule DERIV_nonneg_imp_nondecreasing [OF assms(2)])
  fix x assume "s \<le> x" "x \<le> t"
  with assms have "0 \<le> tail_poly_deriv x" by (intro tail_poly_deriv_nonneg) simp_all
  then show "\<exists>y. (tail_poly has_real_derivative y) (at x) \<and> 0 \<le> y"
    using tail_poly_has_deriv by blast
qed

lemma tail_poly_range:
  assumes "0 \<le> t" "t \<le> 1"
  shows "0 \<le> tail_poly t" and "tail_poly t \<le> 1"
proof -
  have "tail_poly 0 \<le> tail_poly t" using assms by (intro tail_poly_mono) simp_all
  then show "0 \<le> tail_poly t" by (simp add: tail_poly_def)
  have "tail_poly t \<le> tail_poly 1" using assms by (intro tail_poly_mono) simp_all
  then show "tail_poly t \<le> 1" by (simp add: tail_poly_def)
qed

lemma tail_coeff_range: "0 \<le> tail_coeff d" "tail_coeff d \<le> 1"
proof -
  define q where "q = 0.3275911 * (\<bar>d\<bar> / sqrt 2)"
  have "0 \<le> q" by (simp add: q_def)
  then have "0 \<le> 1 / (1 + q)" and "1 / (1 + q) \<le> 1"
    by simp_all
  then show "0 \<le> tail_coeff d" "tail_coeff d \<le> 1"
    unfolding tail_coeff_def q_def by (rule tail_poly_range)+
qed

lemma tail_coeff_antimono:
  assumes "\<bar>a\<bar> \<le> \<bar>b\<bar>"
  shows "tail_coeff b \<le> tail_coeff a"
proof -
  define qa where "qa = 0.3275911 * (\<bar>a\<bar> / sqrt 2)"
  define qb where "qb = 0.3275911 * (\<bar>b\<bar> / sqrt 2)"
  have q: "0 \<le> qa" "qa \<le> qb"
    using assms by (simp_all add: qa_def qb_def divide_right_mono)
  then have "0 \<le> 1 / (1 + qb)" and "1 / (1 + qa) \<le> 1"
    by simp_all
  moreover have "1 / (1 + qb) \<le> 1 / (1 + qa)"
    using q by (simp add: frac_le)
  ultimately have "tail_poly (1 / (1 + qb)) \<le> tail_poly (1 / (1 + qa))"
    by (intro tail_poly_mono)
  then show ?thesis
    unfolding tail_coeff_def qa_def qb_def .
qed

lemma normalCDF_tail_coeff:
  "normalCDF_tail (\<bar>d\<bar> / sqrt 2) = tail_coeff d * exp (- (d * d) / 2)"
proof -
  have "\<bar>d\<bar> / sqrt 2 * (\<bar>d\<bar> / sqrt 2) = d * d / 2"
    by simp
  then have "- (\<bar>d\<bar> / sqrt 2) * (\<bar>d\<bar> / sqrt 2) = - (d * d) / 2"
    by simp
  then show ?thesis
    by (simp only: normalCDF_tail_poly tail_coeff_def)
qed

lemma normalCDF_nonneg_arg:
  "0 \<le> d \<Longrightarrow> normalCDF d = 1 - tail_coeff d * exp (- (d * d) / 2) / 2"
  by (simp only: normalCDF_alt normalCDF_tail_coeff) simp

lemma normalCDF_neg_arg:
  "d < 0 \<Longrightarrow> normalCDF d = tail_coeff d * exp (- (d * d) / 2) / 2"
  by (simp only: normalCDF_alt normalCDF_tail_coeff) simp

lemma closed_form_nonneg:
  assumes ba: "b < a" and B: "0 \<le> B" and A: "A = B * exp ((a * a - b * b) / 2)"
  shows "0 \<le> A * normalCDF a - B * normalCDF b"
proof -
  define Ea where "Ea = exp (- (a * a) / 2)"
  define Eb where "Eb = exp (- (b * b) / 2)"
  define Pa where "Pa = tail_coeff a"
  define Pb where "Pb = tail_coeff b"
  have Eb: "0 < Eb" by (simp add: Eb_def)
  have P: "0 \<le> Pa" "Pa \<le> 1" "0 \<le> Pb" "Pb \<le> 1"
    unfolding Pa_def Pb_def by (rule tail_coeff_range)+
  have "exp ((a * a - b * b) / 2) * exp (- (a * a) / 2) = exp (- (b * b) / 2)"
    unfolding exp_add [symmetric] by (simp add: field_simps)
  then have AE: "A * Ea = B * Eb"
    by (simp add: A Ea_def Eb_def mult.assoc)
  consider "0 \<le> b" | "b < 0" "0 \<le> a" | "a < 0" by linarith
  then show ?thesis
  proof cases
    case 1
    with ba have a: "0 \<le> a" by simp
    have "b * b \<le> a * a" using 1 ba by (intro mult_mono) simp_all
    then have "1 \<le> exp ((a * a - b * b) / 2)" by simp
    then have "B * 1 \<le> B * exp ((a * a - b * b) / 2)" using B by (intro mult_left_mono)
    then have AB: "B \<le> A" by (simp add: A)
    have "\<bar>b\<bar> \<le> \<bar>a\<bar>" using 1 ba by simp
    then have "Pa \<le> Pb" unfolding Pa_def Pb_def by (rule tail_coeff_antimono)
    then have "0 \<le> B * Eb * (Pb - Pa)" using B Eb by simp
    moreover have "A * normalCDF a - B * normalCDF b = (A - B) + B * Eb * (Pb - Pa) / 2"
    proof -
      have "A * normalCDF a - B * normalCDF b = A - (A * Ea) * Pa / 2 - B + B * Eb * Pb / 2"
        by (simp add: normalCDF_nonneg_arg 1 a Ea_def Eb_def Pa_def Pb_def algebra_simps)
      also have "\<dots> = A - (B * Eb) * Pa / 2 - B + B * Eb * Pb / 2"
        by (simp only: AE)
      also have "\<dots> = (A - B) + B * Eb * (Pb - Pa) / 2"
        by (simp add: field_simps)
      finally show ?thesis .
    qed
    ultimately show ?thesis using AB by simp
  next
    case 2
    have "0 \<le> a * a" by simp
    then have "- (b * b) / 2 \<le> (a * a - b * b) / 2" by simp
    then have "Eb \<le> exp ((a * a - b * b) / 2)" unfolding Eb_def by simp
    then have "B * Eb \<le> B * exp ((a * a - b * b) / 2)" using B by (intro mult_left_mono)
    then have AB: "B * Eb \<le> A" by (simp add: A)
    have "B * Eb * (Pa + Pb) \<le> B * Eb * 2"
      using P B Eb by (intro mult_left_mono) simp_all
    moreover have "A * normalCDF a - B * normalCDF b = A - B * Eb * (Pa + Pb) / 2"
    proof -
      have "A * normalCDF a - B * normalCDF b = A - (A * Ea) * Pa / 2 - B * Eb * Pb / 2"
        by (simp add: normalCDF_nonneg_arg normalCDF_neg_arg 2 Ea_def Eb_def Pa_def Pb_def algebra_simps)
      also have "\<dots> = A - (B * Eb) * Pa / 2 - B * Eb * Pb / 2"
        by (simp only: AE)
      also have "\<dots> = A - B * Eb * (Pa + Pb) / 2"
        by (simp add: field_simps)
      finally show ?thesis .
    qed
    ultimately show ?thesis using AB by simp
  next
    case 3
    with ba have b: "b < 0" by simp
    have "\<bar>a\<bar> \<le> \<bar>b\<bar>" using 3 ba by simp
    then have "Pb \<le> Pa" unfolding Pa_def Pb_def by (rule tail_coeff_antimono)
    then have "0 \<le> B * Eb * (Pa - Pb)" using B Eb by simp
    moreover have "A * normalCDF a - B * normalCDF b = B * Eb * (Pa - Pb) / 2"
    proof -
      have "A * normalCDF a - B * normalCDF b = (A * Ea) * Pa / 2 - B * Eb * Pb / 2"
        by (simp add: normalCDF_neg_arg 3 b Ea_def Eb_def Pa_def Pb_def algebra_simps)
      also have "\<dots> = (B * Eb) * Pa / 2 - B * Eb * Pb / 2"
        by (simp only: AE)
      also have "\<dots> = B * Eb * (Pa - Pb) / 2"
        by (simp add: field_simps)
      finally show ?thesis .
    qed
    ultimately show ?thesis by simp
  qed
qed

lemma d1_d2_squares:
  assumes "0 < sigma" "0 < T"
  shows "(calculateD1 S K T r sigma * calculateD1 S K T r sigma
          - calculateD2 (calculateD1 S K T r sigma) sigma T
            * calculateD2 (calculateD1 S K T r sigma) sigma T) / 2
         = ln (S / K) + r * T"
proof -
  define v where "v = sigma * sqrt T"
  define n where "n = ln (S / K) + (r + 0.5 * sigma * sigma) * T"
  have v: "0 < v" using assms by (simp add: v_def)
  have vv: "v * v = sigma * sigma * T"
    using assms by (simp add: v_def algebra_simps)
  have d1: "calculateD1 S K T r sigma = n / v"
    by (simp add: calculateD1_def n_def v_def)
  have "(n / v * (n / v) - (n / v - v) * (n / v - v)) / 2 = n - v * v / 2"
    using v by (simp add: field_simps)
  also have "\<dots> = ln (S / K) + r * T"
    unfolding vv by (simp add: n_def algebra_simps)
  finally show ?thesis
    unfolding d1 calculateD2_def v_def [symmetric] .
qed

text \<open>
  Over the reals the closed form cannot be negative for S, K, sigma, T > 0, whatever r
  is. A negative price can therefore only come from rounding, which is what a floor at 0
  removes. This is a fact about the exact formula, not about the doubles the program
  computes.
\<close>

lemma closed_form_prices_nonneg:
  assumes "0 < S" "0 < K" "0 < sigma" "0 < T"
  shows "0 \<le> callPrice S K T r sigma \<and> 0 \<le> putPrice S K T r sigma"
proof -
  define d1 where "d1 = calculateD1 S K T r sigma"
  define d2 where "d2 = calculateD2 d1 sigma T"
  define Kd where "Kd = K * exp (- r * T)"
  have Kd: "0 \<le> Kd" using assms by (simp add: Kd_def)
  have "0 < sigma * sqrt T" using assms by simp
  then have lt: "d2 < d1" by (simp add: d2_def calculateD2_def)
  have sq: "(d1 * d1 - d2 * d2) / 2 = ln (S / K) + r * T"
    unfolding d1_def d2_def using assms(3,4) by (rule d1_d2_squares)
  have SK: "exp (ln (S / K)) = S / K" using assms by simp
  have "Kd * exp ((d1 * d1 - d2 * d2) / 2) = K * (exp (- r * T) * exp (r * T)) * exp (ln (S / K))"
    unfolding sq Kd_def by (simp add: exp_add algebra_simps)
  also have "\<dots> = S"
    unfolding SK exp_add [symmetric] using assms by simp
  finally have S1: "S = Kd * exp ((d1 * d1 - d2 * d2) / 2)" by simp
  have "0 \<le> S * normalCDF d1 - Kd * normalCDF d2"
    using lt Kd S1 by (rule closed_form_nonneg)
  then have c: "0 \<le> callPrice S K T r sigma"
    using assms by (simp add: callPrice_def Let_def d1_def d2_def Kd_def)
  have "(- d2 * - d2 - - d1 * - d1) / 2 = - ((d1 * d1 - d2 * d2) / 2)"
    by (simp add: field_simps)
  then have "(- d2 * - d2 - - d1 * - d1) / 2 = - (ln (S / K) + r * T)"
    unfolding sq .
  then have "S * exp ((- d2 * - d2 - - d1 * - d1) / 2) = S * (exp (- ln (S / K)) * exp (- (r * T)))"
    by (simp add: exp_add [symmetric])
  also have "\<dots> = Kd"
    unfolding exp_minus SK Kd_def using assms by (simp add: exp_minus)
  finally have K1: "Kd = S * exp ((- d2 * - d2 - - d1 * - d1) / 2)" by simp
  have "0 \<le> Kd * normalCDF (- d2) - S * normalCDF (- d1)"
    using _ _ K1
  proof (rule closed_form_nonneg)
    show "- d1 < - d2" using lt by simp
    show "0 \<le> S" using assms by simp
  qed
  then have p: "0 \<le> putPrice S K T r sigma"
    using assms by (simp add: putPrice_def Let_def d1_def d2_def Kd_def)
  from c p show ?thesis ..
qed

section \<open>Rounding to double\<close>

lemma round_half_even_error: "\<bar>of_int (round_half_even x) - x\<bar> \<le> 1 / 2"
proof -
  define f where "f = \<lfloor>x\<rfloor>"
  define r where "r = x - of_int f"
  have r: "0 \<le> r" "r < 1" unfolding r_def f_def by linarith+
  have x: "x = of_int f + r" by (simp add: r_def)
  have rhe: "round_half_even x =
      (if r < 1 / 2 then f else if 1 / 2 < r then f + 1 else if even f then f else f + 1)"
    unfolding round_half_even_def Let_def f_def r_def ..
  consider "r < 1 / 2" | "1 / 2 < r" | "r = 1 / 2" by linarith
  then show ?thesis
  proof cases
    case 1
    then have "round_half_even x = f"
      by (simp add: rhe)
    with r 1 show ?thesis by (simp add: x)
  next
    case 2
    then have "round_half_even x = f + 1"
      by (simp add: rhe)
    with r 2 show ?thesis by (simp add: x)
  next
    case 3
    then have "round_half_even x = f \<or> round_half_even x = f + 1"
      by (simp add: rhe)
    with 3 show ?thesis by (auto simp: x)
  qed
qed

lemma round_half_even_near:
  assumes "\<bar>x - of_int n\<bar> < 1 / 2"
  shows "round_half_even x = n"
proof -
  have "\<bar>of_int (round_half_even x) - x\<bar> \<le> 1 / 2" by (rule round_half_even_error)
  with assms have "\<bar>real_of_int (round_half_even x) - of_int n\<bar> < 1" by linarith
  then have "\<bar>real_of_int (round_half_even x - n)\<bar> < 1" by simp
  then have "\<bar>round_half_even x - n\<bar> < 1" by linarith
  then show ?thesis by simp
qed

lemma round_half_even_int [simp]: "round_half_even (of_int n) = n"
  by (rule round_half_even_near) simp

lemma fl_zero [simp]: "fl 0 = 0"
  by (simp add: fl_def)

lemma fl_error: "\<bar>fl x - x\<bar> \<le> \<bar>x\<bar> / 2 ^ 53"
proof (cases "x = 0")
  case True
  then show ?thesis by simp
next
  case False
  define e where "e = \<lfloor>log 2 \<bar>x\<bar>\<rfloor>"
  define s where "s = x * 2 powr (52 - of_int e)"
  have "2 powr of_int e \<le> \<bar>x\<bar>"
    using False floor_log_eq_powr_iff [of "\<bar>x\<bar>" 2 e] by (simp add: e_def)
  have x: "x = s * 2 powr (of_int e - 52)"
    unfolding s_def mult.assoc powr_add [symmetric] by simp
  have "fl x - x = (of_int (round_half_even s) - s) * 2 powr (of_int e - 52)"
    using False by (subst (2) x) (simp add: fl_def Let_def e_def s_def algebra_simps)
  then have "\<bar>fl x - x\<bar> = \<bar>of_int (round_half_even s) - s\<bar> * 2 powr (of_int e - 52)"
    by (simp add: abs_mult)
  also have "\<dots> \<le> 1 / 2 * 2 powr (of_int e - 52)"
    by (intro mult_right_mono round_half_even_error) simp
  also have "\<dots> = 2 powr of_int e / 2 ^ 53"
    by (simp add: powr_diff)
  also have "\<dots> \<le> \<bar>x\<bar> / 2 ^ 53"
    using \<open>2 powr of_int e \<le> \<bar>x\<bar>\<close> by (simp add: divide_right_mono)
  finally show ?thesis .
qed

lemma fl_neg: "x < 0 \<Longrightarrow> fl x < 0"
proof -
  assume x: "x < 0"
  have "\<bar>fl x - x\<bar> \<le> \<bar>x\<bar> / 2 ^ 53" by (rule fl_error)
  moreover have "\<bar>x\<bar> / 2 ^ 53 < \<bar>x\<bar>" using x by simp
  ultimately show ?thesis using x by linarith
qed

lemma fl_exact_powr:
  assumes "\<bar>m\<bar> < 2 ^ 53"
  shows "fl (of_int m * 2 powr of_int k) = of_int m * 2 powr of_int k"
proof (cases "m = 0")
  case True
  then show ?thesis by simp
next
  case False
  define x where "x = real_of_int m * 2 powr of_int k"
  define e where "e = \<lfloor>log 2 \<bar>x\<bar>\<rfloor>"
  have x0: "x \<noteq> 0" using False by (simp add: x_def)
  have "\<bar>x\<bar> = \<bar>real_of_int m\<bar> * 2 powr of_int k" by (simp add: x_def abs_mult)
  also have "\<dots> < 2 ^ 53 * 2 powr of_int k"
    using assms by (intro mult_strict_right_mono) (simp_all flip: of_int_abs)
  also have "\<dots> = 2 powr (of_int (53 + k))"
    by (simp add: powr_add powr_realpow [symmetric])
  finally have "log 2 \<bar>x\<bar> < of_int (53 + k)"
    using x0 by (simp add: log_less_iff)
  then have "e < 53 + k" unfolding e_def by (simp add: floor_less_iff)
  then have "0 \<le> k + 52 - e" by simp
  then obtain j :: nat where j: "k + 52 - e = int j"
    using nonneg_int_cases by blast
  have "x * 2 powr (52 - of_int e) = of_int m * 2 powr (of_int (k + 52 - e))"
    by (simp add: x_def powr_add [symmetric] algebra_simps)
  also have "\<dots> = of_int (m * 2 ^ j)"
    unfolding j by (simp add: powr_realpow)
  finally have s: "x * 2 powr (52 - of_int e) = of_int (m * 2 ^ j)" .
  have "fl x = of_int (m * 2 ^ j) * 2 powr (of_int e - 52)"
    using x0 by (simp add: fl_def Let_def e_def [symmetric] s del: of_int_mult of_int_power)
  also have "\<dots> = of_int m * (2 powr (of_int (k + 52 - e)) * 2 powr (of_int e - 52))"
    unfolding j by (simp add: powr_realpow)
  also have "\<dots> = x"
    unfolding powr_add [symmetric] by (simp add: x_def)
  finally show ?thesis unfolding x_def .
qed

lemma fl_exact_div:
  assumes "\<bar>m\<bar> < 2 ^ 53"
  shows "fl (of_int m / 2 ^ n) = of_int m / 2 ^ n"
  using fl_exact_powr [OF assms, of "- int n"]
  by (simp add: powr_minus powr_realpow divide_inverse)

lemma fl_exact_int:
  assumes "\<bar>m\<bar> < 2 ^ 53"
  shows "fl (of_int m) = of_int m"
  using fl_exact_div [OF assms, of 0] by simp

lemma fl_one_minus:
  assumes "1 / 2 ^ 54 < tau" "tau < 3 / 2 ^ 54"
  shows "fl (1 - tau) = 1 - 1 / 2 ^ 53"
proof -
  define x where "x = 1 - tau"
  have x: "1 / 2 \<le> x" "x < 1" "0 < x" using assms by (simp_all add: x_def)
  have "2 powr real_of_int (- 1) \<le> x" "x < 2 powr (real_of_int (- 1) + 1)"
    using x by simp_all
  then have e: "\<lfloor>log 2 \<bar>x\<bar>\<rfloor> = - 1"
    using x floor_log_eq_powr_iff [of x 2 "- 1"] by simp
  have p: "(2::real) powr 53 = 2 ^ 53"
    using powr_realpow [of 2 53] by simp
  have s: "x * 2 powr (52 - of_int (- 1)) = x * 2 ^ 53"
    using p by simp
  define w where "w = tau * 2 ^ 53"
  have w: "1 / 2 < w" "w < 3 / 2"
    using assms by (simp_all add: w_def field_simps)
  have "x * 2 ^ 53 - of_int (2 ^ 53 - 1) = 1 - w"
    by (simp add: x_def w_def algebra_simps)
  moreover have "\<bar>1 - w\<bar> < 1 / 2"
    using w by linarith
  ultimately have "\<bar>x * 2 ^ 53 - of_int (2 ^ 53 - 1)\<bar> < 1 / 2"
    by (simp only:)
  then have r: "round_half_even (x * 2 ^ 53) = 2 ^ 53 - 1"
    by (rule round_half_even_near)
  have "2 powr (- 53) = 1 / (2 powr 53 :: real)"
    by (simp only: powr_minus inverse_eq_divide)
  then have q: "2 powr (of_int (- 1) - 52) = 1 / (2 ^ 53 :: real)"
    using p by simp
  have "fl x = of_int (2 ^ 53 - 1) * (1 / 2 ^ 53)"
    using x(3) unfolding fl_def Let_def e s r q by simp
  then show ?thesis
    unfolding x_def by (simp add: field_simps)
qed

lemma rel_err_pos:
  fixes f z u :: real
  assumes "\<bar>f - z\<bar> \<le> z * u" "0 \<le> u" "u \<le> 1" "lo \<le> z" "z \<le> hi"
    and "L \<le> lo * (1 - u)" "hi * (1 + u) \<le> H"
  shows "L \<le> f \<and> f \<le> H"
proof
  define w where "w = z * u"
  have f: "z - w \<le> f" "f \<le> z + w"
    using assms(1) unfolding w_def [symmetric] by linarith+
  have "lo * (1 - u) \<le> z * (1 - u)"
    using assms by (intro mult_right_mono) simp_all
  also have "\<dots> = z - w"
    by (simp add: w_def algebra_simps)
  finally have "lo * (1 - u) \<le> f"
    using f by linarith
  with assms(6) show "L \<le> f" by (rule order_trans)
  have "z + w = z * (1 + u)"
    by (simp add: w_def algebra_simps)
  also have "\<dots> \<le> hi * (1 + u)"
    using assms by (intro mult_right_mono) simp_all
  finally have "f \<le> hi * (1 + u)"
    using f by linarith
  then show "f \<le> H" using assms(7) by (rule order_trans)
qed

lemma rel_err_neg:
  fixes f z u :: real
  assumes "\<bar>f - z\<bar> \<le> - z * u" "0 \<le> u" "u \<le> 1" "lo \<le> z" "z \<le> hi"
    and "L \<le> lo * (1 + u)" "hi * (1 - u) \<le> H"
  shows "L \<le> f \<and> f \<le> H"
proof
  define w where "w = z * u"
  have "- z * u = - w" by (simp add: w_def)
  then have f: "z + w \<le> f" "f \<le> z - w"
    using assms(1) by linarith+
  have "lo * (1 + u) \<le> z * (1 + u)"
    using assms by (intro mult_right_mono) simp_all
  also have "\<dots> = z + w"
    by (simp add: w_def algebra_simps)
  finally have "lo * (1 + u) \<le> f"
    using f by linarith
  with assms(6) show "L \<le> f" by (rule order_trans)
  have "z - w = z * (1 - u)"
    by (simp add: w_def algebra_simps)
  also have "\<dots> \<le> hi * (1 - u)"
    using assms by (intro mult_right_mono) simp_all
  finally have "f \<le> hi * (1 - u)"
    using f by linarith
  then show "f \<le> H" using assms(7) by (rule order_trans)
qed

lemma fl_pos_in:
  assumes "0 \<le> lo" "lo \<le> z" "z \<le> hi"
    and "L \<le> lo * (1 - 1 / 2 ^ 53)" "hi * (1 + 1 / 2 ^ 53) \<le> H"
  shows "L \<le> fl z \<and> fl z \<le> H"
proof (rule rel_err_pos [OF _ _ _ assms(2,3,4,5)])
  have "0 \<le> z" using assms by linarith
  then show "\<bar>fl z - z\<bar> \<le> z * (1 / 2 ^ 53)"
    using fl_error [of z] by simp
qed simp_all

lemma fl_neg_in:
  assumes "hi \<le> 0" "lo \<le> z" "z \<le> hi"
    and "L \<le> lo * (1 + 1 / 2 ^ 53)" "hi * (1 - 1 / 2 ^ 53) \<le> H"
  shows "L \<le> fl z \<and> fl z \<le> H"
proof (rule rel_err_neg [OF _ _ _ assms(2,3,4,5)])
  have "z \<le> 0" using assms by linarith
  then show "\<bar>fl z - z\<bar> \<le> - z * (1 / 2 ^ 53)"
    using fl_error [of z] by simp
qed simp_all

lemma fl_mul_pos:
  assumes "al \<le> a \<and> a \<le> ah" "bl \<le> b \<and> b \<le> bh" "0 \<le> al" "0 \<le> bl"
    and "L \<le> al * bl * (1 - 1 / 2 ^ 53)" "ah * bh * (1 + 1 / 2 ^ 53) \<le> H"
  shows "L \<le> fl (a * b) \<and> fl (a * b) \<le> H"
proof (rule fl_pos_in [OF _ _ _ assms(5,6)])
  show "0 \<le> al * bl" using assms by simp
  show "al * bl \<le> a * b" using assms by (intro mult_mono) simp_all
  show "a * b \<le> ah * bh" using assms by (intro mult_mono) simp_all
qed

lemma fl_mul_neg:
  assumes "al \<le> a \<and> a \<le> ah" "bl \<le> b \<and> b \<le> bh" "ah \<le> 0" "0 \<le> bl"
    and "L \<le> al * bh * (1 + 1 / 2 ^ 53)" "ah * bl * (1 - 1 / 2 ^ 53) \<le> H"
  shows "L \<le> fl (a * b) \<and> fl (a * b) \<le> H"
proof (rule fl_neg_in [OF _ _ _ assms(5,6)])
  have a: "a \<le> 0" "al \<le> 0" using assms by linarith+
  have b: "0 \<le> b" "0 \<le> bh" using assms by linarith+
  show "ah * bl \<le> 0" using assms by (simp add: mult_nonpos_nonneg)
  have "al * bh \<le> a * bh" using assms b by (intro mult_right_mono) simp_all
  also have "\<dots> \<le> a * b" using assms a by (intro mult_left_mono_neg) simp_all
  finally show "al * bh \<le> a * b" .
  have "a * b \<le> a * bl" using assms a by (intro mult_left_mono_neg) simp_all
  also have "\<dots> \<le> ah * bl" using assms by (intro mult_right_mono) simp_all
  finally show "a * b \<le> ah * bl" .
qed

lemma fl_add_pos:
  assumes "al \<le> a \<and> a \<le> ah" "bl \<le> b \<and> b \<le> bh" "0 \<le> al + bl"
    and "L \<le> (al + bl) * (1 - 1 / 2 ^ 53)" "(ah + bh) * (1 + 1 / 2 ^ 53) \<le> H"
  shows "L \<le> fl (a + b) \<and> fl (a + b) \<le> H"
  by (rule fl_pos_in [OF assms(3) _ _ assms(4,5)]) (use assms(1,2) in simp_all)

lemma fl_add_neg:
  assumes "al \<le> a \<and> a \<le> ah" "bl \<le> b \<and> b \<le> bh" "ah + bh \<le> 0"
    and "L \<le> (al + bl) * (1 + 1 / 2 ^ 53)" "(ah + bh) * (1 - 1 / 2 ^ 53) \<le> H"
  shows "L \<le> fl (a + b) \<and> fl (a + b) \<le> H"
  by (rule fl_neg_in [OF assms(3) _ _ assms(4,5)]) (use assms(1,2) in simp_all)

lemma fl_div_pos:
  assumes "al \<le> a \<and> a \<le> ah" "bl \<le> b \<and> b \<le> bh" "0 \<le> al" "0 < bl"
    and "L \<le> al / bh * (1 - 1 / 2 ^ 53)" "ah / bl * (1 + 1 / 2 ^ 53) \<le> H"
  shows "L \<le> fl (a / b) \<and> fl (a / b) \<le> H"
proof (rule fl_pos_in [OF _ _ _ assms(5,6)])
  have b: "0 < b" "0 < bh" using assms by linarith+
  show "0 \<le> al / bh" using assms b by simp
  show "al / bh \<le> a / b" using assms b by (intro frac_le) simp_all
  show "a / b \<le> ah / bl" using assms b by (intro frac_le) simp_all
qed

lemma fl_const:
  assumes "0 \<le> c" "L \<le> c * (1 - 1 / 2 ^ 53)" "c * (1 + 1 / 2 ^ 53) \<le> H"
  shows "L \<le> fl c \<and> fl c \<le> H"
  by (rule fl_pos_in [OF assms(1) _ _ assms(2,3)]) simp_all

lemma fl_const_neg:
  assumes "c \<le> 0" "L \<le> c * (1 + 1 / 2 ^ 53)" "c * (1 - 1 / 2 ^ 53) \<le> H"
  shows "L \<le> fl c \<and> fl c \<le> H"
  by (rule fl_neg_in [OF assms(1) _ _ assms(2,3)]) simp_all

lemma pow_sq_lower:
  fixes c :: real
  assumes "0 \<le> L" "L \<le> c ^ n" "M \<le> L * L"
  shows "M \<le> c ^ (2 * n)"
proof -
  have "L * L \<le> c ^ n * c ^ n" using assms by (intro mult_mono) simp_all
  also have "\<dots> = c ^ (2 * n)" by (simp add: power_add [symmetric] mult_2)
  finally show ?thesis using assms(3) by simp
qed

lemma pow_sq_upper:
  fixes c :: real
  assumes "0 \<le> c" "c ^ n \<le> U" "U * U \<le> M"
  shows "c ^ (2 * n) \<le> M"
proof -
  have "0 \<le> c ^ n" using assms by simp
  with assms have U: "0 \<le> U" by linarith
  have "c ^ (2 * n) = c ^ n * c ^ n" by (simp add: power_add [symmetric] mult_2)
  also have "\<dots> \<le> U * U" using assms U by (intro mult_mono) simp_all
  finally show ?thesis using assms(3) by simp
qed

lemma pow_mul_lower:
  fixes c :: real
  assumes "0 \<le> L" "L \<le> c ^ m" "0 \<le> N" "N \<le> c ^ n" "M \<le> L * N"
  shows "M \<le> c ^ (m + n)"
proof -
  have "L * N \<le> c ^ m * c ^ n" using assms by (intro mult_mono) simp_all
  also have "\<dots> = c ^ (m + n)" by (simp add: power_add)
  finally show ?thesis using assms(5) by simp
qed

lemma pow_mul_upper:
  fixes c :: real
  assumes "0 \<le> c" "c ^ m \<le> U" "c ^ n \<le> V" "U * V \<le> M"
  shows "c ^ (m + n) \<le> M"
proof -
  have "0 \<le> c ^ m" using assms by simp
  with assms have U: "0 \<le> U" by linarith
  have "c ^ (m + n) = c ^ m * c ^ n" by (simp add: power_add)
  also have "\<dots> \<le> U * V" using assms U by (intro mult_mono) simp_all
  finally show ?thesis using assms(4) by simp
qed

lemma exp_step_bounds:
  shows "63 / 64 \<le> exp (- (1 / 64) :: real)" and "exp (- (1 / 64) :: real) \<le> 64 / 65"
proof -
  have "1 + (- (1 / 64)) \<le> exp (- (1 / 64) :: real)"
    by (rule exp_ge_add_one_self)
  then show "63 / 64 \<le> exp (- (1 / 64) :: real)" by simp
  have "1 + 1 / 64 \<le> exp (1 / 64 :: real)"
    by (rule exp_ge_add_one_self)
  then have "inverse (exp (1 / 64 :: real)) \<le> inverse (65 / 64)"
    by (intro le_imp_inverse_le) simp_all
  then show "exp (- (1 / 64) :: real) \<le> 64 / 65"
    by (simp add: exp_minus)
qed

lemma exp_power_lower:
  fixes c :: real
  assumes "63 / 64 \<le> c"
  shows "0.000000000000000697967563975 \<le> c ^ 2216"
proof -
  have p1: "0.984375 \<le> c ^ 1" using assms by simp
  have p2: "0.968994140625 \<le> c ^ 2"
    using pow_sq_lower [where M = "0.968994140625", OF _ p1] by simp
  have p4: "0.938949644565 \<le> c ^ 4"
    using pow_sq_lower [where M = "0.938949644565", OF _ p2] by simp
  have p8: "0.881626435028 \<le> c ^ 8"
    using pow_sq_lower [where M = "0.881626435028", OF _ p4] by simp
  have p16: "0.77726517094 \<le> c ^ 16"
    using pow_sq_lower [where M = "0.77726517094", OF _ p8] by simp
  have p32: "0.604141145956 \<le> c ^ 32"
    using pow_sq_lower [where M = "0.604141145956", OF _ p16] by simp
  have p64: "0.364986524237 \<le> c ^ 64"
    using pow_sq_lower [where M = "0.364986524237", OF _ p32] by simp
  have p128: "0.133215162874 \<le> c ^ 128"
    using pow_sq_lower [where M = "0.133215162874", OF _ p64] by simp
  have p256: "0.0177462796195 \<le> c ^ 256"
    using pow_sq_lower [where M = "0.0177462796195", OF _ p128] by simp
  have p512: "0.000314930440333 \<le> c ^ 512"
    using pow_sq_lower [where M = "0.000314930440333", OF _ p256] by simp
  have p1024: "0.0000000991811822483 \<le> c ^ 1024"
    using pow_sq_lower [where M = "0.0000000991811822483", OF _ p512] by simp
  have p2048: "0.00000000000000983690691217 \<le> c ^ 2048"
    using pow_sq_lower [where M = "0.00000000000000983690691217", OF _ p1024] by simp
  have q1: "0.532626804762 \<le> c ^ 40"
    using pow_mul_lower [where M = "0.532626804762", OF _ p8 _ p32] by simp
  have q2: "0.0709539665474 \<le> c ^ 168"
    using pow_mul_lower [where M = "0.0709539665474", OF _ q1 _ p128] by simp
  have q3: "0.000000000000000697967563975 \<le> c ^ 2216"
    using pow_mul_lower [where M = "0.000000000000000697967563975", OF _ q2 _ p2048] by simp
  from q3 show ?thesis .
qed

lemma exp_power_upper:
  fixes c :: real
  assumes c: "0 \<le> c" and "c \<le> 64 / 65"
  shows "c ^ 2206 \<le> 0.00000000000000140009613146"
proof -
  have p1: "c ^ 1 \<le> 0.984615384616" using assms by simp
  have p2: "c ^ 2 \<le> 0.969467455623"
    using pow_sq_upper [where M = "0.969467455623", OF c p1] by simp
  have p4: "c ^ 4 \<le> 0.939867147513"
    using pow_sq_upper [where M = "0.939867147513", OF c p2] by simp
  have p8: "c ^ 8 \<le> 0.883350254975"
    using pow_sq_upper [where M = "0.883350254975", OF c p4] by simp
  have p16: "c ^ 16 \<le> 0.780307672965"
    using pow_sq_upper [where M = "0.780307672965", OF c p8] by simp
  have p32: "c ^ 32 \<le> 0.608880064489"
    using pow_sq_upper [where M = "0.608880064489", OF c p16] by simp
  have p64: "c ^ 64 \<le> 0.370734932933"
    using pow_sq_upper [where M = "0.370734932933", OF c p32] by simp
  have p128: "c ^ 128 \<le> 0.137444390497"
    using pow_sq_upper [where M = "0.137444390497", OF c p64] by simp
  have p256: "c ^ 256 \<le> 0.0188909604791"
    using pow_sq_upper [where M = "0.0188909604791", OF c p128] by simp
  have p512: "c ^ 512 \<le> 0.000356868387823"
    using pow_sq_upper [where M = "0.000356868387823", OF c p256] by simp
  have p1024: "c ^ 1024 \<le> 0.000000127355046228"
    using pow_sq_upper [where M = "0.000000127355046228", OF c p512] by simp
  have p2048: "c ^ 2048 \<le> 0.0000000000000162193077998"
    using pow_sq_upper [where M = "0.0000000000000162193077998", OF c p1024] by simp
  have q1: "c ^ 6 \<le> 0.911170612124"
    using pow_mul_upper [where M = "0.911170612124", OF c p2 p4] by simp
  have q2: "c ^ 14 \<le> 0.804882792546"
    using pow_mul_upper [where M = "0.804882792546", OF c q1 p8] by simp
  have q3: "c ^ 30 \<le> 0.628056218862"
    using pow_mul_upper [where M = "0.628056218862", OF c q2 p16] by simp
  have q4: "c ^ 158 \<le> 0.0863228041994"
    using pow_mul_upper [where M = "0.0863228041994", OF c q3 p128] by simp
  have q5: "c ^ 2206 \<le> 0.00000000000000140009613146"
    using pow_mul_upper [where M = "0.00000000000000140009613146", OF c q4 p2048] by simp
  from q5 show ?thesis .
qed

lemma normalCDF_double_tail:
  assumes d: "1063 / 128 \<le> d" "d \<le> 1065 / 128"
  shows "normalCDF_double (- d) = 1 / 2 ^ 54"
proof -
  have one: "1 \<le> (1::real) \<and> (1::real) \<le> 1" by simp
  define a1 where "a1 = fl 0.254829592"
  have a1: "0.254829591999 \<le> a1 \<and> a1 \<le> 0.254829592001"
    unfolding a1_def by (rule fl_const) simp_all
  define a2 where "a2 = fl (-0.284496736)"
  have a2: "(- 0.284496736001) \<le> a2 \<and> a2 \<le> (- 0.284496735999)"
    unfolding a2_def by (rule fl_const_neg) simp_all
  define a3 where "a3 = fl 1.421413741"
  have a3: "1.42141374099 \<le> a3 \<and> a3 \<le> 1.42141374101"
    unfolding a3_def by (rule fl_const) simp_all
  define a4 where "a4 = fl (-1.453152027)"
  have a4: "(- 1.45315202701) \<le> a4 \<and> a4 \<le> (- 1.45315202699)"
    unfolding a4_def by (rule fl_const_neg) simp_all
  define a5 where "a5 = fl 1.061405429"
  have a5: "1.06140542899 \<le> a5 \<and> a5 \<le> 1.06140542901"
    unfolding a5_def by (rule fl_const) simp_all
  define p where "p = fl 0.3275911"
  have p: "0.327591099999 \<le> p \<and> p \<le> 0.327591100001"
    unfolding p_def by (rule fl_const) simp_all
  define r2 where "r2 = Math_sqrt 2"
  have "1.41421356 \<le> sqrt 2" by (rule real_le_rsqrt) (simp add: power2_eq_square)
  moreover have "sqrt 2 \<le> 1.41421357" by (rule real_le_lsqrt) (simp_all add: power2_eq_square)
  ultimately have r2: "1.41421355999 \<le> r2 \<and> r2 \<le> 1.41421357001"
    unfolding r2_def Math_sqrt_def by (intro fl_pos_in [where lo = "1.41421356" and hi = "1.41421357"]) simp_all
  have dabs: "1063 / 128 \<le> \<bar>- d\<bar> \<and> \<bar>- d\<bar> \<le> 1065 / 128" using d by simp
  define x where "x = fl (\<bar>- d\<bar> / r2)"
  have x: "5.87230081517 \<le> x \<and> x \<le> 5.88334940026"
    unfolding x_def
    by (rule fl_div_pos [OF dabs r2]) simp_all
  define pq where "pq = fl (p * x)"
  have pq: "1.92371348356 \<le> pq \<and> pq \<le> 1.92733290173"
    unfolding pq_def
    by (rule fl_mul_pos [OF p x]) simp_all
  define q where "q = fl (1 + pq)"
  have q: "2.92371348355 \<le> q \<and> q \<le> 2.92733290174"
    unfolding q_def
    by (rule fl_add_pos [OF one pq]) simp_all
  define t where "t = fl (1 / q)"
  have t: "0.341607884571 \<le> t \<and> t \<le> 0.34203077888"
    unfolding t_def
    by (rule fl_div_pos [OF one q]) simp_all
  define m1 where "m1 = fl (a5 * t)"
  have m1: "0.362584463269 \<le> m1 \<and> m1 \<le> 0.363033325592"
    unfolding m1_def
    by (rule fl_mul_pos [OF a5 t]) simp_all
  define s1 where "s1 = fl (m1 + a4)"
  have s1: "(- 1.09056756375) \<le> s1 \<and> s1 \<le> (- 1.09011870139)"
    unfolding s1_def
    by (rule fl_add_neg [OF m1 a4]) simp_all
  define m2 where "m2 = fl (s1 * t)"
  have m2: "(- 0.373007673251) \<le> m2 \<and> m2 \<le> (- 0.372393143513)"
    unfolding m2_def
    by (rule fl_mul_neg [OF s1 t]) simp_all
  define s2 where "s2 = fl (m2 + a3)"
  have s2: "1.04840606773 \<le> s2 \<and> s2 \<le> 1.0490205975"
    unfolding s2_def
    by (rule fl_add_pos [OF m2 a3]) simp_all
  define m3 where "m3 = fl (s2 * t)"
  have m3: "0.358143778968 \<le> m3 \<and> m3 \<le> 0.358797332025"
    unfolding m3_def
    by (rule fl_mul_pos [OF s2 t]) simp_all
  define s3 where "s3 = fl (m3 + a2)"
  have s3: "0.0736470429669 \<le> s3 \<and> s3 \<le> 0.0743005960261"
    unfolding s3_def
    by (rule fl_add_pos [OF m3 a2]) simp_all
  define m4 where "m4 = fl (s3 * t)"
  have m4: "0.0251584105528 \<le> m4 \<and> m4 \<le> 0.0254130907301"
    unfolding m4_def
    by (rule fl_mul_pos [OF s3 t]) simp_all
  define s4 where "s4 = fl (m4 + a1)"
  have s4: "0.279988002551 \<le> s4 \<and> s4 \<le> 0.280242682732"
    unfolding s4_def
    by (rule fl_add_pos [OF m4 a1]) simp_all
  define m5 where "m5 = fl (s4 * t)"
  have m5: "0.0956461092567 \<le> m5 \<and> m5 \<le> 0.0958516230503"
    unfolding m5_def
    by (rule fl_mul_pos [OF s4 t]) simp_all
  have negx: "(- 5.88334940026) \<le> - x \<and> - x \<le> (- 5.87230081517)" using x by simp
  define xx where "xx = fl (- x * x)"
  have xx: "(- 34.6138001656) \<le> xx \<and> xx \<le> (- 34.4839168638)"
    unfolding xx_def
    by (rule fl_mul_neg [OF negx x]) simp_all
  define c :: real where "c = exp (- (1 / 64))"
  have c: "63 / 64 \<le> c" "c \<le> 64 / 65" "0 \<le> c"
    unfolding c_def by (rule exp_step_bounds, rule exp_step_bounds, simp)
  have "exp (of_nat 2216 * (- (1 / 64))) \<le> exp xx"
    using xx by simp
  then have exl: "0.000000000000000697967563975 \<le> exp xx"
    unfolding exp_of_nat_mult c_def [symmetric] using exp_power_lower [OF c(1)] by (rule order_trans [rotated])
  have "exp xx \<le> exp (of_nat 2206 * (- (1 / 64)))"
    using xx by simp
  then have exu: "exp xx \<le> 0.00000000000000140009613146"
    unfolding exp_of_nat_mult c_def [symmetric] using exp_power_upper [OF c(3) c(2)] by (rule order_trans)
  define ex where "ex = Math_exp xx"
  have ex: "0.000000000000000697967563974 \<le> ex \<and> ex \<le> 0.00000000000000140009613147"
    unfolding ex_def Math_exp_def using exl exu
    by (intro fl_pos_in [where lo = "0.000000000000000697967563975" and hi = "0.00000000000000140009613146"]) simp_all
  define tau where "tau = fl (m5 * ex)"
  have tau: "0.0000000000000000667578818814 \<le> tau \<and> tau \<le> 0.000000000000000134201486628"
    unfolding tau_def
    by (rule fl_mul_pos [OF m5 ex]) simp_all
  define y where "y = fl (1 - tau)"
  have y: "y = 1 - 1 / 2 ^ 53"
    unfolding y_def using tau by (intro fl_one_minus) simp_all
  have ny: "- 1 * y = real_of_int (- (2 ^ 53 - 1)) / 2 ^ 53"
    unfolding y by (simp add: field_simps)
  have f1: "fl (- 1 * y) = - 1 * y"
    unfolding ny by (rule fl_exact_div) simp
  have w: "1 + - 1 * y = real_of_int 1 / 2 ^ 53"
    unfolding y by (simp add: field_simps)
  have f2: "fl (1 + - 1 * y) = 1 + - 1 * y"
    unfolding w by (rule fl_exact_div) simp
  have h: "0.5 * (1 + - 1 * y) = real_of_int 1 / 2 ^ 54"
    unfolding y by (simp add: field_simps)
  have f3: "fl (0.5 * (1 + - 1 * y)) = 0.5 * (1 + - 1 * y)"
    unfolding h by (rule fl_exact_div) simp
  have "fl (0.5 * fl (1 + fl (- 1 * y))) = fl (0.5 * (1 + - 1 * y))"
    by (simp only: f1 f2)
  also have "\<dots> = 0.5 * (1 + - 1 * y)"
    by (rule f3)
  also have "\<dots> = 1 / 2 ^ 54"
    unfolding h by simp
  finally have "fl (0.5 * fl (1 + fl (- 1 * y))) = 1 / 2 ^ 54" .
  moreover have "normalCDF_double (- d) = fl (0.5 * fl (1 + fl (- 1 * y)))"
  proof -
    have "- d < 0" using d by simp
    then show ?thesis
      by (simp only: normalCDF_double_def Let_def if_True y_def tau_def ex_def xx_def m5_def
          s4_def m4_def s3_def m3_def s2_def m2_def s1_def m1_def t_def q_def pq_def x_def r2_def
          a1_def a2_def a3_def a4_def a5_def p_def)
  qed
  ultimately show ?thesis by simp
qed

lemma fl_dyadic:
  shows "fl 1 = 1" and "fl (1 / 128) = 1 / 128" and "fl (1 / 8192) = 1 / 8192"
    and "fl (1065 / 8192) = 1065 / 8192" and "fl (1 / 64) = 1 / 64"
    and "fl (1065 / 128) = 1065 / 128" and "fl (1063 / 128) = 1063 / 128"
    and "fl (- (133 / 1024)) = - (133 / 1024)"
  using fl_exact_int [of 1] fl_exact_div [of 1 7] fl_exact_div [of 1 13]
    fl_exact_div [of 1065 13] fl_exact_div [of 1 6] fl_exact_div [of 1065 7]
    fl_exact_div [of 1063 7] fl_exact_div [of "- 133" 10]
  by simp_all

lemma d1_double: "calculateD1_double 100 100 1 (133 / 1024) (1 / 64) = 1065 / 128"
  by (simp add: calculateD1_double_def Math_log_def Math_sqrt_def fl_dyadic)

lemma d2_double: "calculateD2_double (1065 / 128) (1 / 64) 1 = 1063 / 128"
  by (simp add: calculateD2_double_def Math_sqrt_def fl_dyadic)

text \<open>
  In double arithmetic, at S = K = 100, T = 1, r = 133/1024, sigma = 1/64, the values
  d1 = 1065/128 and d2 = 1063/128 are computed without rounding error, \<open>normalCDF\<close>
  returns \<open>1 / 2 ^ 54\<close> at both \<open>- d1\<close> and \<open>- d2\<close>, and the put price is the rounded
  discounted strike minus 100, times \<open>1 / 2 ^ 54\<close>: a negative number.
  (The enclosures used for \<open>exp\<close> are wide: the result does not depend on the last
  bits of \<open>Math.exp\<close>.)
\<close>

lemma putPrice_double_example:
  "putPrice_double 100 100 1 (133 / 1024) (1 / 64) < 0"
proof -
  define E where "E = Math_exp (- (133 / 1024))"
  define KE where "KE = fl (100 * E)"
  define A where "A = fl (KE * (1 / 2 ^ 54))"
  have "1 + 133 / 1024 \<le> exp (133 / 1024 :: real)"
    by (rule exp_ge_add_one_self)
  then have "inverse (exp (133 / 1024 :: real)) \<le> inverse (1157 / 1024)"
    by (intro le_imp_inverse_le) simp_all
  then have "exp (- (133 / 1024) :: real) \<le> 9 / 10"
    by (simp add: exp_minus)
  then have E: "0 \<le> E \<and> E \<le> 901 / 1000"
    unfolding E_def Math_exp_def
    by (intro fl_pos_in [where lo = 0 and hi = "9 / 10"]) simp_all
  have hundred: "100 \<le> (100::real) \<and> (100::real) \<le> 100" by simp
  have KE: "0 \<le> KE \<and> KE \<le> 91"
    unfolding KE_def by (rule fl_mul_pos [OF hundred E]) simp_all
  have quantum: "1 / 2 ^ 54 \<le> (1 / 2 ^ 54 :: real) \<and> (1 / 2 ^ 54 :: real) \<le> 1 / 2 ^ 54" by simp
  have A: "0 \<le> A \<and> A \<le> 92 / 2 ^ 54"
    unfolding A_def by (rule fl_mul_pos [OF KE quantum]) simp_all
  have B: "fl (100 * (1 / 2 ^ 54)) = 100 / 2 ^ 54"
    using fl_exact_div [of 100 54] by simp
  have "A - 100 / 2 ^ 54 < 0" using A by simp
  then have neg: "fl (A - 100 / 2 ^ 54) < 0" by (rule fl_neg)
  have N1: "normalCDF_double (- (1065 / 128)) = 1 / 2 ^ 54"
    by (rule normalCDF_double_tail) simp_all
  have N2: "normalCDF_double (- (1063 / 128)) = 1 / 2 ^ 54"
    by (rule normalCDF_double_tail) simp_all
  have "putPrice_double 100 100 1 (133 / 1024) (1 / 64)
      = fl (fl (fl (100 * Math_exp (fl (- (133 / 1024) * 1))) * normalCDF_double (- (1063 / 128)))
            - fl (100 * normalCDF_double (- (1065 / 128))))"
    by (simp add: putPrice_double_def Let_def d1_double d2_double)
  also have "\<dots> = fl (A - 100 / 2 ^ 54)"
    unfolding N1 N2 B A_def KE_def E_def by (simp add: fl_dyadic)
  finally show ?thesis using neg by simp
qed

lemma blackScholesPut_double_floor:
  "blackScholesPut_double S K T r sigma = max (putPrice_double S K T r sigma) 0"
  by (simp add: blackScholesPut_double_def putPrice_double_def calculateD1_double_def
      calculateD2_double_def Let_def)

text \<open>
  C5. The specification has \<open>callPrice\<close> and \<open>putPrice\<close> return the closed-form value
  floored at 0, so never a negative price. \<open>BlackScholesCalculator\<close> returns the closed
  form as computed, with no floor: at S = K = 100, T = 1, r = 133/1024, sigma = 1/64 its
  \<open>putPrice\<close> is negative, where \<open>blackScholesPut\<close>, which ends with
  \<open>Math.max(putPrice, 0)\<close>, returns 0.
\<close>

theorem putPrice_double_negative:
  "putPrice_double 100 100 1 (133 / 1024) (1 / 64) < 0
   \<and> blackScholesPut_double 100 100 1 (133 / 1024) (1 / 64) = 0"
  using putPrice_double_example by (simp add: blackScholesPut_double_floor)

section \<open>The solver on numbers that are not finite\<close>

text \<open>NaN passes through every operation, \<open>Math.max\<close> and \<open>Math.min\<close> included.\<close>

lemma js_add_NaN [simp]: "js_add x NaN = NaN"
  by (cases x) simp_all

lemma js_mul_NaN [simp]: "js_mul x NaN = NaN"
  by (cases x) simp_all

lemma js_div_NaN [simp]: "js_div x NaN = NaN"
  by (cases x) simp_all

lemma js_sub_NaN [simp]: "js_sub x NaN = NaN" "js_sub NaN y = NaN"
  by (simp_all add: js_sub_def)

lemma js_max_NaN [simp]: "js_max x NaN = NaN"
  by (cases x) simp_all

lemma js_min_NaN [simp]: "js_min x NaN = NaN"
  by (cases x) simp_all

lemma js_lt_NaN [simp]: "\<not> js_lt x NaN"
  by (cases x) simp_all

lemma js_le_NaN [simp]: "\<not> js_le x NaN"
  by (cases x) simp_all






text \<open>
  On finite inputs with S > 0 and K > 0 and a positive sigma, the functions over \<open>jsnum\<close>
  return the finite values of the functions over the reals.
\<close>

lemma normalCDF_js_fin: "normalCDF_js (Fin d) = Fin (normalCDF d)"
proof -
  have "0 \<le> 0.3275911 * (\<bar>d\<bar> / sqrt 2)" by simp
  then have "1 + 0.3275911 * (\<bar>d\<bar> / sqrt 2) \<noteq> 0" by linarith
  then show ?thesis
    by (simp add: normalCDF_js_def normalCDF_def Let_def js_sub_def)
qed

lemma normalPDF_js_fin: "normalPDF_js (Fin d) = Fin (normalPDF d)"
  by (simp add: normalPDF_js_def normalPDF_def)

lemma calculateD1_js_fin:
  assumes "0 < S" "0 < K" "0 < T" "0 < sigma"
  shows "calculateD1_js (Fin S) (Fin K) (Fin T) (Fin r) (Fin sigma) = Fin (calculateD1 S K T r sigma)"
proof -
  from assms have "0 < S / K" "0 < sigma * sqrt T" by simp_all
  then have "\<not> S / K < 0" "S / K \<noteq> 0" "sigma * sqrt T \<noteq> 0" by linarith+
  with assms show ?thesis
    by (simp add: calculateD1_js_def calculateD1_def)
qed

lemma callPrice_js_fin:
  assumes "0 < S" "0 < K" "0 < sigma"
  shows "callPrice_js (Fin S) (Fin K) (Fin T) (Fin r) (Fin sigma) = Fin (callPrice S K T r sigma)"
proof (cases "T \<le> 0")
  case True
  then show ?thesis by (simp add: callPrice_js_def callPrice_def js_sub_def max_def)
next
  case False
  with assms show ?thesis
    by (simp add: callPrice_js_def callPrice_def Let_def calculateD1_js_fin calculateD2_js_def
        calculateD2_def normalCDF_js_fin js_sub_def)
qed

lemma putPrice_js_fin:
  assumes "0 < S" "0 < K" "0 < sigma"
  shows "putPrice_js (Fin S) (Fin K) (Fin T) (Fin r) (Fin sigma) = Fin (putPrice S K T r sigma)"
proof (cases "T \<le> 0")
  case True
  then show ?thesis by (simp add: putPrice_js_def putPrice_def js_sub_def max_def)
next
  case False
  with assms show ?thesis
    by (simp add: putPrice_js_def putPrice_def Let_def calculateD1_js_fin calculateD2_js_def
        calculateD2_def normalCDF_js_fin js_sub_def)
qed

lemma vega_js_fin:
  assumes "0 < S" "0 < K" "0 < sigma"
  shows "vega_js (Fin S) (Fin K) (Fin T) (Fin r) (Fin sigma) = Fin (vega S K T r sigma)"
proof (cases "T \<le> 0")
  case True
  then show ?thesis by (simp add: vega_js_def vega_def)
next
  case False
  with assms show ?thesis
    by (simp add: vega_js_def vega_def Let_def calculateD1_js_fin normalPDF_js_fin)
qed

lemma model_price_js_fin:
  assumes "0 < S" "0 < K" "0 < sigma"
  shows "model_price_js ot (Fin S) (Fin K) (Fin T) (Fin r) (Fin sigma)
         = Fin (model_price ot S K T r sigma)"
  using assms by (simp add: model_price_js_def model_price_def callPrice_js_fin putPrice_js_fin)


text \<open>
  With a finite tolerance the whole run is the run of the solver over the reals.
\<close>

lemma iv_loop_js_refines:
  assumes "0 < S" "0 < K"
  shows "0 < sigma \<Longrightarrow>
         iv_loop_js n (Fin marketPrice) (Fin S) (Fin K) (Fin T) (Fin r) ot (Fin tolerance) (Fin sigma)
         = Fin (snd (iv_loop n marketPrice S K T r ot tolerance sigma))"
proof (induction n arbitrary: sigma)
  case 0
  then show ?case by simp
next
  case (Suc n)
  define d where "d = model_price ot S K T r sigma - marketPrice"
  define v where "v = vega S K T r sigma * 100"
  define nx where "nx = max 0.01 (min 5.0 (sigma - d / v))"
  have "0 < nx" by (simp add: nx_def)
  note IH = Suc.IH [OF this]
  have diff: "js_sub (model_price_js ot (Fin S) (Fin K) (Fin T) (Fin r) (Fin sigma)) (Fin marketPrice)
      = Fin d"
    using assms Suc.prems by (simp add: model_price_js_fin js_sub_def d_def)
  have veg: "js_mul (vega_js (Fin S) (Fin K) (Fin T) (Fin r) (Fin sigma)) (Fin 100) = Fin v"
    using assms Suc.prems by (simp add: vega_js_fin v_def)
  have upd: "v \<noteq> 0 \<Longrightarrow>
      js_max (Fin 0.01) (js_min (Fin 5.0) (js_sub (Fin sigma) (js_div (Fin d) (Fin v)))) = Fin nx"
    by (simp add: js_sub_def nx_def max_def min_def)
  have real: "iv_loop (Suc n) marketPrice S K T r ot tolerance sigma
      = (if \<bar>d\<bar> < tolerance then (Converged, sigma)
         else if v = 0 then (VegaZero, sigma)
         else iv_loop n marketPrice S K T r ot tolerance nx)"
    by (simp add: Let_def d_def v_def nx_def)
  have js: "iv_loop_js (Suc n) (Fin marketPrice) (Fin S) (Fin K) (Fin T) (Fin r) ot (Fin tolerance) (Fin sigma)
      = (if \<bar>d\<bar> < tolerance then Fin sigma
         else if v = 0 then Fin sigma
         else iv_loop_js n (Fin marketPrice) (Fin S) (Fin K) (Fin T) (Fin r) ot (Fin tolerance) (Fin nx))"
  proof (cases "v = 0")
    case True
    then show ?thesis
      by (simp only: iv_loop_js.simps Let_def diff veg) simp
  next
    case False
    with upd show ?thesis
      by (simp only: iv_loop_js.simps Let_def diff veg) simp
  qed
  show ?case unfolding real js using IH by simp
qed







end
